theory Spec2Isabelle
  imports Main
begin

section \<open>The HE music container extractor (HE_music_extractor.py)\<close>

text \<open>
  A shallow embedding of the class \<open>HEMusicExtractor\<close>: the two methods
  \<open>read_music_headers\<close> and \<open>get_music_data\<close>, the dataclass \<open>SongInfo\<close>, and the
  part of Python's binary file interface and of \<open>struct.unpack\<close> that they call.
  Python's \<open>bytes\<close> are lists of \<open>char\<close> (HOL's \<open>char\<close> is an 8-bit byte), so the
  tag \<open>b'SONG'\<close> is the literal \<open>''SONG''\<close>. Python's integers are \<open>int\<close>.
  Every exception the methods can raise is a value \<open>Inl e\<close> of the result.
  The \<open>assert\<close> statements are run, as Python does unless started with \<open>-O\<close>. Of the
  logging, the two warnings are kept, as they are the only place where the code says
  why it skips a track; the debug messages are left out.
\<close>

subsection \<open>Exceptions and the result type\<close>

datatype error =
    RuntimeError      \<comment> \<open>line 45: "File is not a music container"\<close>
  | AssertionError    \<comment> \<open>lines 39, 48, 79: a failed \<open>assert\<close>\<close>
  | StructError       \<comment> \<open>\<open>struct.error\<close>: \<open>unpack\<close> on a buffer of the wrong length\<close>
  | NameError         \<comment> \<open>lines 105, 107: the name \<open>f\<close> is not bound\<close>
  | ValueError        \<comment> \<open>\<open>read(n)\<close> with \<open>n < -1\<close> on a buffered reader\<close>
  | OSError           \<comment> \<open>a seek to a negative position\<close>

type_synonym bytes = "char list"

definition bindE :: "error + 'a \<Rightarrow> ('a \<Rightarrow> error + 'b) \<Rightarrow> error + 'b" where
  "bindE m k = (case m of Inl e \<Rightarrow> Inl e | Inr x \<Rightarrow> k x)"

subsection \<open>The byte source\<close>

text \<open>
  The file object \<open>self._file\<close> (a \<open>BinaryIO\<close>): its content, the cursor and
  whether it is closed. The script opens it with \<open>Path.open('rb')\<close>, a buffered
  reader over a regular file:
  a seek past the end is allowed and a read there returns fewer bytes than asked for
  (none at all beyond the end); a seek to a negative position raises \<open>OSError\<close>;
  \<open>read(-1)\<close> reads to the end and \<open>read(n)\<close> with \<open>n < -1\<close> raises \<open>ValueError\<close>.
  The methods assert that the file is open before they touch it, so the operations
  themselves are modelled on an open file.
\<close>

record BinaryIO =
  content :: bytes
  position :: nat
  closed :: bool

definition seek_set :: "int \<Rightarrow> BinaryIO \<Rightarrow> error + BinaryIO" where
  "seek_set n f = (if n < 0 then Inl OSError else Inr (f\<lparr>position := nat n\<rparr>))"

definition seek_cur :: "int \<Rightarrow> BinaryIO \<Rightarrow> error + BinaryIO" where
  "seek_cur n f =
     (if int (position f) + n < 0 then Inl OSError
      else Inr (f\<lparr>position := nat (int (position f) + n)\<rparr>))"

definition read :: "int \<Rightarrow> BinaryIO \<Rightarrow> error + (bytes \<times> BinaryIO)" where
  "read n f =
     (if n < - 1 then Inl ValueError
      else
        let rest = drop (position f) (content f);
            bs = (if n = - 1 then rest else take (nat n) rest)
        in Inr (bs, f\<lparr>position := position f + length bs\<rparr>))"

subsection \<open>struct.unpack\<close>

text \<open>Unsigned integers from their bytes, least significant byte first.\<close>

fun from_le :: "bytes \<Rightarrow> int" where
  "from_le [] = 0"
| "from_le (b # bs) = of_char b + 256 * from_le bs"

definition from_be :: "bytes \<Rightarrow> int" where
  "from_be bs = from_le (rev bs)"

text \<open>\<open>unpack('>I', b)[0]\<close>, \<open>unpack('<I', b)[0]\<close> and \<open>unpack('<3I', b)\<close>.\<close>

definition unpack_BE_I :: "bytes \<Rightarrow> error + int" where
  "unpack_BE_I b = (if length b \<noteq> 4 then Inl StructError else Inr (from_be b))"

definition unpack_LE_I :: "bytes \<Rightarrow> error + int" where
  "unpack_LE_I b = (if length b \<noteq> 4 then Inl StructError else Inr (from_le b))"

definition unpack_LE_3I :: "bytes \<Rightarrow> error + (int \<times> int \<times> int)" where
  "unpack_LE_3I b =
     (if length b \<noteq> 12 then Inl StructError
      else Inr (from_le (take 4 b), from_le (take 4 (drop 4 b)), from_le (take 4 (drop 8 b))))"

subsection \<open>SongInfo\<close>

text \<open>
  The dataclass of lines 10 to 20. The fields \<open>id\<close> and \<open>size\<close> carry a prime, since
  HOL has constants of these names. \<open>None\<close> is Python's \<open>None\<close>.
\<close>

record SongInfo =
  id' :: int
  offset :: int
  size' :: int
  rate :: "int option"
  payload :: "bytes option"
  sbng_code_offset :: int

text \<open>The constructor call \<open>SongInfo(id_, offset, size)\<close> of line 65, with the defaults.\<close>

definition new_SongInfo :: "int \<Rightarrow> int \<Rightarrow> int \<Rightarrow> SongInfo" where
  "new_SongInfo i off sz =
     \<lparr>id' = i, offset = off, size' = sz, rate = None, payload = None, sbng_code_offset = - 1\<rparr>"

subsection \<open>read_music_headers\<close>

definition he_version :: int where
  "he_version = 80"

text \<open>
  The loop of lines 62 to 67, \<open>n\<close> iterations left: read a record of 12 bytes, append
  the descriptor, skip the trailing bytes.
\<close>

fun read_songs :: "nat \<Rightarrow> int \<Rightarrow> SongInfo list \<Rightarrow> BinaryIO \<Rightarrow> error + (SongInfo list \<times> BinaryIO)" where
  "read_songs 0 hv songs file = Inr (songs, file)"
| "read_songs (Suc n) hv songs file =
     bindE (read 12 file) (\<lambda>(b, file).
     bindE (unpack_LE_3I b) (\<lambda>(i, off, sz).
     bindE (seek_cur (if hv \<ge> 80 then 9 else 13) file) (\<lambda>file.
     read_songs n hv (songs @ [new_SongInfo i off sz]) file)))"

definition read_music_headers :: "BinaryIO \<Rightarrow> error + (SongInfo list \<times> BinaryIO)" where
  "read_music_headers file =
     (if closed file then Inl AssertionError
      else
        bindE (seek_set 0 file) (\<lambda>file.
        bindE (read 4 file) (\<lambda>(magic, file).
        if magic \<noteq> ''SONG'' then Inl RuntimeError
        else
          bindE (seek_cur 4 file) (\<lambda>file.
          bindE (read 4 file) (\<lambda>(tag, file).
          if tag \<noteq> ''SGHD'' then Inl AssertionError
          else
            bindE (read 4 file) (\<lambda>(b, file).
            bindE (unpack_BE_I b) (\<lambda>header_len.
            let hv = (if header_len \<noteq> 40 then 70 else he_version) in
            bindE (read 4 file) (\<lambda>(b, file).
            bindE (unpack_LE_I b) (\<lambda>total_tracks.
            let music_start = (if hv \<ge> 80 then 56 else 20) in
            bindE (seek_set music_start file) (\<lambda>file.
            read_songs (nat total_tracks) hv [] file))))))))))"

subsection \<open>get_music_data\<close>

text \<open>
  Lines 105 and 107 call \<open>f.seek\<close> and \<open>f.read\<close>, and \<open>f\<close> is no local name of the
  method: Python looks it up among the module's globals when the line runs. Run as a
  script, line 316 binds the global \<open>f\<close> to the very file object that line 317 hands
  to the extractor; imported as a module, nothing binds \<open>f\<close> and the lookup raises
  \<open>NameError\<close>.
\<close>

datatype f_binding = Unbound | Same_File

definition lookup_f :: "f_binding \<Rightarrow> BinaryIO \<Rightarrow> error + BinaryIO" where
  "lookup_f g file = (case g of Unbound \<Rightarrow> Inl NameError | Same_File \<Rightarrow> Inr file)"

text \<open>The two warnings the method logs (lines 87 and 109), with the values they print.\<close>

datatype warning =
    Unsupported_Format bytes int   \<comment> \<open>the tag read and the song's id\<close>
  | Payload_Check_Failed int int   \<comment> \<open>the song's id and offset\<close>

text \<open>The branch of lines 99 to 107: the song, the tag read next and the file.\<close>

definition skip_sbng :: "f_binding \<Rightarrow> SongInfo \<Rightarrow> BinaryIO \<Rightarrow> error + (SongInfo \<times> bytes \<times> BinaryIO)" where
  "skip_sbng g song file =
     (let song = song\<lparr>sbng_code_offset := 40\<rparr> in
      bindE (read 4 file) (\<lambda>(b, file).
      bindE (unpack_BE_I b) (\<lambda>n.
      let code_len = n - 8 in
      bindE (lookup_f g file) (\<lambda>f.
      bindE (seek_cur code_len f) (\<lambda>file.
      bindE (lookup_f g file) (\<lambda>f.
      bindE (read 4 f) (\<lambda>(chunk_header, file).
      Inr (song, chunk_header, file))))))))"

text \<open>
  Lines 108 to 119, with the tag in \<open>chunk_header\<close> and the rate read before: the
  payload check, then the declared size and the payload.
\<close>

definition read_sdat ::
  "SongInfo \<Rightarrow> int \<Rightarrow> bytes \<Rightarrow> BinaryIO \<Rightarrow> error + (SongInfo \<times> warning list \<times> BinaryIO)" where
  "read_sdat song rate_read chunk_header file =
     (if chunk_header \<noteq> ''SDAT''
      then Inr (song, [Payload_Check_Failed (id' song) (offset song)], file)
      else
        bindE (read 4 file) (\<lambda>(b, file).
        bindE (unpack_BE_I b) (\<lambda>n.
        let size_read = n - 8 in
        bindE (read size_read file) (\<lambda>(payload_read, file).
        Inr (song\<lparr>rate := Some rate_read, payload := Some payload_read\<rparr>, [], file)))))"

text \<open>
  One iteration of the loop of lines 82 to 119: the song as the iteration leaves it,
  the warnings it logs and the file. \<open>continue\<close> returns the song as it is then.
\<close>

definition get_song_data ::
  "f_binding \<Rightarrow> SongInfo \<Rightarrow> BinaryIO \<Rightarrow> error + (SongInfo \<times> warning list \<times> BinaryIO)" where
  "get_song_data g song file =
     bindE (seek_set (offset song) file) (\<lambda>file.
     bindE (read 4 file) (\<lambda>(sound_fmt, file).
     if sound_fmt \<noteq> ''DIGI''
     then Inr (song, [Unsupported_Format sound_fmt (id' song)], file)
     else
       bindE (seek_set (offset song + 22) file) (\<lambda>file.
       bindE (read 4 file) (\<lambda>(b, file).
       bindE (unpack_LE_I b) (\<lambda>rate_read.
       bindE (seek_set (offset song + 32) file) (\<lambda>file.
       bindE (read 4 file) (\<lambda>(chunk_header, file).
       bindE (if chunk_header = ''SBNG'' then skip_sbng g song file
              else Inr (song, chunk_header, file)) (\<lambda>(song, chunk_header, file).
       read_sdat song rate_read chunk_header file))))))))"

text \<open>The loop over \<open>songs\<close>: the songs done so far, the log so far and the file.\<close>

fun get_songs_data ::
  "f_binding \<Rightarrow> SongInfo list \<Rightarrow> SongInfo list \<Rightarrow> warning list \<Rightarrow> BinaryIO
    \<Rightarrow> error + (SongInfo list \<times> warning list \<times> BinaryIO)" where
  "get_songs_data g [] done log file = Inr (done, log, file)"
| "get_songs_data g (song # songs) done log file =
     bindE (get_song_data g song file) (\<lambda>(song, ws, file).
     get_songs_data g songs (done @ [song]) (log @ ws) file)"

definition get_music_data :: "f_binding \<Rightarrow> BinaryIO \<Rightarrow> error + (SongInfo list \<times> warning list \<times> BinaryIO)" where
  "get_music_data g file =
     bindE (read_music_headers file) (\<lambda>(songs, file).
     if closed file then Inl AssertionError
     else get_songs_data g songs [] [] file)"

subsection \<open>What the statements are phrased with\<close>

text \<open>
  The statements below speak of the bytes of the container directly: \<open>bytes_at data p n\<close>
  is the field of \<open>n\<close> bytes at offset \<open>p\<close> (shorter where the data ends before),
  \<open>record_at data p\<close> the descriptor whose record starts at \<open>p\<close>, and \<open>stride\<close> the
  distance between two records of the table.
  \<open>table_result f start step n\<close> is a descriptor table of \<open>n\<close> records read at
  \<open>start\<close>, \<open>step\<close> bytes apart: the descriptors in table order and the file left
  after the last record, or \<open>struct.error\<close> when a record is cut short.
  \<open>song_result\<close> and \<open>song_warnings\<close> are what one iteration of the extraction loop
  leaves of a song and what it logs, when it raises nothing.
\<close>

definition bytes_at :: "bytes \<Rightarrow> nat \<Rightarrow> nat \<Rightarrow> bytes" where
  "bytes_at data p n = take n (drop p data)"

definition record_at :: "bytes \<Rightarrow> nat \<Rightarrow> SongInfo" where
  "record_at data p =
     new_SongInfo (from_le (bytes_at data p 4)) (from_le (bytes_at data (p + 4) 4))
       (from_le (bytes_at data (p + 8) 4))"

definition stride :: "int \<Rightarrow> nat" where
  "stride hv = (if hv \<ge> 80 then 21 else 25)"

definition table_result :: "BinaryIO \<Rightarrow> nat \<Rightarrow> nat \<Rightarrow> nat \<Rightarrow> error + (SongInfo list \<times> BinaryIO)" where
  "table_result f start step n =
     (if n = 0 \<or> start + step * (n - 1) + 12 \<le> length (content f)
      then Inr (map (\<lambda>k. record_at (content f) (start + step * k)) [0..<n],
                f\<lparr>position := start + step * n\<rparr>)
      else Inl StructError)"

definition song_result :: "f_binding \<Rightarrow> BinaryIO \<Rightarrow> SongInfo \<Rightarrow> SongInfo" where
  "song_result g f s = (case get_song_data g s f of Inl e \<Rightarrow> s | Inr (s', ws, f') \<Rightarrow> s')"

definition song_warnings :: "f_binding \<Rightarrow> BinaryIO \<Rightarrow> SongInfo \<Rightarrow> warning list" where
  "song_warnings g f s = (case get_song_data g s f of Inl e \<Rightarrow> [] | Inr (s', ws, f') \<Rightarrow> ws)"

subsection \<open>Example containers\<close>

text \<open>
  Concrete containers on which the statements are evaluated. \<open>opened data\<close> is a file
  just opened on \<open>data\<close>, \<open>digi_track\<close> a track of the expected shape: \<open>DIGI\<close>, the
  rate at 22, \<open>SDAT\<close> at 32, the declared size at 36 and the payload from 40 on.
\<close>

definition zeros :: "nat \<Rightarrow> bytes" where
  "zeros n = replicate n (CHR 0x00)"

definition opened :: "bytes \<Rightarrow> BinaryIO" where
  "opened data = \<lparr>content = data, position = 0, closed = False\<rparr>"

definition digi_track :: "bytes \<Rightarrow> bytes \<Rightarrow> bytes \<Rightarrow> bytes" where
  "digi_track rate_bytes size_bytes payload_bytes =
     ''DIGI'' @ zeros 18 @ rate_bytes @ zeros 6 @ ''SDAT'' @ size_bytes @ payload_bytes"

text \<open>A file that does not start with \<open>SONG\<close>, and one whose sub-header tag is wrong.\<close>

definition riff_file :: bytes where
  "riff_file = ''RIFF'' @ zeros 4 @ ''SGHD'' @ zeros 8"

definition bad_sghd_file :: bytes where
  "bad_sghd_file = ''SONG'' @ zeros 4 @ ''SGHX'' @ zeros 8"

text \<open>
  A container of the layout with header length 40: two descriptors at 56 and 77, and
  two \<open>DIGI\<close> tracks at 98 and 141 with the rates 11025 and 22050 and the payloads
  \<open>abc\<close> and \<open>wxyz\<close>.
\<close>

definition v2_file :: bytes where
  "v2_file =
     ''SONG'' @ zeros 4 @ ''SGHD'' @ [CHR 0x00, CHR 0x00, CHR 0x00, CHR 0x28]
     @ [CHR 0x02, CHR 0x00, CHR 0x00, CHR 0x00] @ zeros 36
     @ [CHR 0x01, CHR 0x00, CHR 0x00, CHR 0x00] @ [CHR 0x62, CHR 0x00, CHR 0x00, CHR 0x00]
     @ [CHR 0x2B, CHR 0x00, CHR 0x00, CHR 0x00] @ zeros 9
     @ [CHR 0x02, CHR 0x00, CHR 0x00, CHR 0x00] @ [CHR 0x8D, CHR 0x00, CHR 0x00, CHR 0x00]
     @ [CHR 0x2C, CHR 0x00, CHR 0x00, CHR 0x00] @ zeros 9
     @ digi_track [CHR 0x11, CHR 0x2B, CHR 0x00, CHR 0x00] [CHR 0x00, CHR 0x00, CHR 0x00, CHR 0x0B]
         ''abc''
     @ digi_track [CHR 0x22, CHR 0x56, CHR 0x00, CHR 0x00] [CHR 0x00, CHR 0x00, CHR 0x00, CHR 0x0C]
         ''wxyz''"

text \<open>
  The header of a container whose header length is 20 with one descriptor (id 7,
  offset 45) whose size field is \<open>size_bytes\<close>; the track follows at 45.
\<close>

definition v1_header :: "bytes \<Rightarrow> bytes" where
  "v1_header size_bytes =
     ''SONG'' @ zeros 4 @ ''SGHD'' @ [CHR 0x00, CHR 0x00, CHR 0x00, CHR 0x14]
     @ [CHR 0x01, CHR 0x00, CHR 0x00, CHR 0x00]
     @ [CHR 0x07, CHR 0x00, CHR 0x00, CHR 0x00] @ [CHR 0x2D, CHR 0x00, CHR 0x00, CHR 0x00]
     @ size_bytes @ zeros 13"

text \<open>Such a container with a well-formed track: rate 11025, payload \<open>abc\<close>.\<close>

definition v1_file :: bytes where
  "v1_file =
     v1_header [CHR 0x2B, CHR 0x00, CHR 0x00, CHR 0x00]
     @ digi_track [CHR 0x11, CHR 0x2B, CHR 0x00, CHR 0x00] [CHR 0x00, CHR 0x00, CHR 0x00, CHR 0x0B]
         ''abc''"

text \<open>
  A container cut short inside the payload: the \<open>SDAT\<close> chunk declares 32 bytes, that
  is a payload of 24, and the file ends after two of them.
\<close>

definition truncated_file :: bytes where
  "truncated_file =
     v1_header [CHR 0x40, CHR 0x00, CHR 0x00, CHR 0x00]
     @ digi_track [CHR 0x11, CHR 0x2B, CHR 0x00, CHR 0x00] [CHR 0x00, CHR 0x00, CHR 0x00, CHR 0x20]
         ''ab''"

text \<open>
  A container with three descriptors at 20, 45 and 70: a \<open>TALK\<close> track at 95, a
  \<open>DIGI\<close> track at 103 whose tag at 135 is \<open>XXXX\<close>, and a well-formed track at 139.
\<close>

definition skip_file :: bytes where
  "skip_file =
     ''SONG'' @ zeros 4 @ ''SGHD'' @ [CHR 0x00, CHR 0x00, CHR 0x00, CHR 0x14]
     @ [CHR 0x03, CHR 0x00, CHR 0x00, CHR 0x00]
     @ [CHR 0x01, CHR 0x00, CHR 0x00, CHR 0x00] @ [CHR 0x5F, CHR 0x00, CHR 0x00, CHR 0x00]
     @ [CHR 0x08, CHR 0x00, CHR 0x00, CHR 0x00] @ zeros 13
     @ [CHR 0x02, CHR 0x00, CHR 0x00, CHR 0x00] @ [CHR 0x67, CHR 0x00, CHR 0x00, CHR 0x00]
     @ [CHR 0x24, CHR 0x00, CHR 0x00, CHR 0x00] @ zeros 13
     @ [CHR 0x03, CHR 0x00, CHR 0x00, CHR 0x00] @ [CHR 0x8B, CHR 0x00, CHR 0x00, CHR 0x00]
     @ [CHR 0x2B, CHR 0x00, CHR 0x00, CHR 0x00] @ zeros 13
     @ ''TALK'' @ zeros 4
     @ ''DIGI'' @ zeros 18 @ [CHR 0x11, CHR 0x2B, CHR 0x00, CHR 0x00] @ zeros 6 @ ''XXXX''
     @ digi_track [CHR 0x11, CHR 0x2B, CHR 0x00, CHR 0x00] [CHR 0x00, CHR 0x00, CHR 0x00, CHR 0x0B]
         ''abc''"

text \<open>
  A container whose track at 45 has an \<open>SBNG\<close> block of declared length 12 (four code
  bytes) between the fixed blocks and the \<open>SDAT\<close> chunk.
\<close>

definition sbng_file :: bytes where
  "sbng_file =
     v1_header [CHR 0x37, CHR 0x00, CHR 0x00, CHR 0x00]
     @ ''DIGI'' @ zeros 18 @ [CHR 0x11, CHR 0x2B, CHR 0x00, CHR 0x00] @ zeros 6
     @ ''SBNG'' @ [CHR 0x00, CHR 0x00, CHR 0x00, CHR 0x0C] @ ''code''
     @ ''SDAT'' @ [CHR 0x00, CHR 0x00, CHR 0x00, CHR 0x0B] @ ''abc''"

text \<open>
  A container with two descriptors at 20 and 45: at 70 a \<open>DIGI\<close> track whose \<open>SBNG\<close>
  block of declared length 12 is followed by the tag \<open>XXXX\<close> instead of \<open>SDAT\<close>, and
  at 118 a well-formed track.
\<close>

definition sbng_skip_file :: bytes where
  "sbng_skip_file =
     ''SONG'' @ zeros 4 @ ''SGHD'' @ [CHR 0x00, CHR 0x00, CHR 0x00, CHR 0x14]
     @ [CHR 0x02, CHR 0x00, CHR 0x00, CHR 0x00]
     @ [CHR 0x01, CHR 0x00, CHR 0x00, CHR 0x00] @ [CHR 0x46, CHR 0x00, CHR 0x00, CHR 0x00]
     @ [CHR 0x30, CHR 0x00, CHR 0x00, CHR 0x00] @ zeros 13
     @ [CHR 0x02, CHR 0x00, CHR 0x00, CHR 0x00] @ [CHR 0x76, CHR 0x00, CHR 0x00, CHR 0x00]
     @ [CHR 0x2B, CHR 0x00, CHR 0x00, CHR 0x00] @ zeros 13
     @ ''DIGI'' @ zeros 18 @ [CHR 0x11, CHR 0x2B, CHR 0x00, CHR 0x00] @ zeros 6
     @ ''SBNG'' @ [CHR 0x00, CHR 0x00, CHR 0x00, CHR 0x0C] @ ''code'' @ ''XXXX''
     @ digi_track [CHR 0x11, CHR 0x2B, CHR 0x00, CHR 0x00] [CHR 0x00, CHR 0x00, CHR 0x00, CHR 0x0B]
         ''abc''"

section \<open>The result type and the byte source\<close>

lemma bindE_Inl [simp]: "bindE (Inl e) k = Inl e"
  by (simp add: bindE_def)

lemma bindE_Inr [simp]: "bindE (Inr x) k = k x"
  by (simp add: bindE_def)

lemma bindE_Inr_iff:
  "bindE m k = Inr y \<longleftrightarrow> (\<exists>x. m = Inr x \<and> k x = Inr y)"
  by (cases m) simp_all

lemma read_nat:
  "read (int n) f =
     Inr (bytes_at (content f) (position f) n,
          f\<lparr>position := position f + min n (length (content f) - position f)\<rparr>)"
  by (simp add: read_def bytes_at_def Let_def min_def)

lemma length_bytes_at: "length (bytes_at data p n) = min n (length data - p)"
  by (simp add: bytes_at_def)

lemma read_12: "read 12 f = Inr (bytes_at (content f) (position f) 12,
          f\<lparr>position := position f + min 12 (length (content f) - position f)\<rparr>)"
  using read_nat [of 12 f] by simp

lemma read_4: "read 4 f = Inr (bytes_at (content f) (position f) 4,
          f\<lparr>position := position f + min 4 (length (content f) - position f)\<rparr>)"
  using read_nat [of 4 f] by simp

lemma read_4_ok:
  "position f + 4 \<le> length (content f) \<Longrightarrow>
   read 4 f = Inr (bytes_at (content f) (position f) 4, f\<lparr>position := position f + 4\<rparr>)"
  by (simp add: read_4 min_def)

lemma bytes_at_tag_length:
  "bytes_at data p 4 = [a, b, c, d] \<Longrightarrow> p + 4 \<le> length data"
proof -
  assume "bytes_at data p 4 = [a, b, c, d]"
  then have "length (bytes_at data p 4) = 4" by simp
  then show ?thesis by (simp add: length_bytes_at min_def split: if_splits)
qed

lemma seek_cur_nat: "seek_cur (int n) f = Inr (f\<lparr>position := position f + n\<rparr>)"
  by (simp add: seek_cur_def nat_int_add)

lemma seek_cur_9: "seek_cur 9 f = Inr (f\<lparr>position := position f + 9\<rparr>)"
  using seek_cur_nat [of 9 f] by simp

lemma seek_cur_13: "seek_cur 13 f = Inr (f\<lparr>position := position f + 13\<rparr>)"
  using seek_cur_nat [of 13 f] by simp

lemma seek_cur_4: "seek_cur 4 f = Inr (f\<lparr>position := position f + 4\<rparr>)"
  using seek_cur_nat [of 4 f] by simp

lemma seek_set_0: "seek_set 0 f = Inr (f\<lparr>position := 0\<rparr>)"
  by (simp add: seek_set_def)

lemma seek_set_20: "seek_set 20 f = Inr (f\<lparr>position := 20\<rparr>)"
  by (simp add: seek_set_def)

lemma seek_set_56: "seek_set 56 f = Inr (f\<lparr>position := 56\<rparr>)"
  by (simp add: seek_set_def)

lemma same_file_eq:
  "content f' = content f \<Longrightarrow> closed f' = closed f \<Longrightarrow> f' = (f::BinaryIO)\<lparr>position := position f'\<rparr>"
  by (cases f, cases f') simp

lemma of_char_nonneg: "0 \<le> (of_char c :: int)"
proof -
  have "(of_char c :: int) = int (of_char c)"
    by (simp add: of_nat_of_char)
  then show ?thesis
    by simp
qed

lemma from_le_nonneg: "0 \<le> from_le bs"
  by (induction bs) (simp_all add: of_char_nonneg)

lemma from_be_nonneg: "0 \<le> from_be bs"
  by (simp add: from_be_def from_le_nonneg)

lemma unpack_LE_3I_at:
  assumes "p + 12 \<le> length data"
  shows "unpack_LE_3I (bytes_at data p 12) =
     Inr (from_le (bytes_at data p 4), from_le (bytes_at data (p + 4) 4),
          from_le (bytes_at data (p + 8) 4))"
proof -
  from assms have "min 12 (length data - p) = 12"
    by arith
  then show ?thesis
    by (simp add: unpack_LE_3I_def bytes_at_def drop_take add.commute)
qed

lemma unpack_LE_3I_short:
  assumes "\<not> p + 12 \<le> length data"
  shows "unpack_LE_3I (bytes_at data p 12) = Inl StructError"
proof -
  from assms have "min 12 (length data - p) \<noteq> 12"
    by arith
  then show ?thesis
    by (simp add: unpack_LE_3I_def bytes_at_def)
qed

lemma unpack_BE_I_at:
  "unpack_BE_I (bytes_at data p 4) =
     (if p + 4 \<le> length data then Inr (from_be (bytes_at data p 4)) else Inl StructError)"
  by (auto simp: unpack_BE_I_def length_bytes_at min_def)

lemma unpack_LE_I_at:
  "unpack_LE_I (bytes_at data p 4) =
     (if p + 4 \<le> length data then Inr (from_le (bytes_at data p 4)) else Inl StructError)"
  by (auto simp: unpack_LE_I_def length_bytes_at min_def)

section \<open>The header reader\<close>

lemma read_songs_step:
  "read_songs (Suc n) hv songs f =
     (if position f + 12 \<le> length (content f)
      then read_songs n hv (songs @ [record_at (content f) (position f)])
             (f\<lparr>position := position f + stride hv\<rparr>)
      else Inl StructError)"
proof (cases "position f + 12 \<le> length (content f)")
  case True
  then have "min 12 (length (content f) - position f) = 12"
    by arith
  with True show ?thesis
    by (simp add: read_12 unpack_LE_3I_at seek_cur_9 seek_cur_13 record_at_def stride_def add.commute)
next
  case False
  then show ?thesis
    by (simp add: read_12 unpack_LE_3I_short)
qed

lemma read_songs_eq:
  "read_songs n hv songs f =
     (if n = 0 \<or> position f + stride hv * (n - 1) + 12 \<le> length (content f)
      then Inr (songs @ map (\<lambda>k. record_at (content f) (position f + stride hv * k)) [0..<n],
                f\<lparr>position := position f + stride hv * n\<rparr>)
      else Inl StructError)"
proof (induction n arbitrary: songs f)
  case 0
  show ?case by simp
next
  case (Suc n)
  let ?p = "position f" and ?d = "content f" and ?s = "stride hv"
  show ?case
  proof (cases "?p + 12 \<le> length ?d")
    case False
    then have "\<not> ?p + ?s * n + 12 \<le> length ?d"
      by arith
    with False show ?thesis
      by (simp add: read_songs_step del: read_songs.simps)
  next
    case True
    let ?f' = "f\<lparr>position := ?p + ?s\<rparr>"
    have c: "(n = 0 \<or> position ?f' + ?s * (n - 1) + 12 \<le> length (content ?f'))
               \<longleftrightarrow> ?p + ?s * n + 12 \<le> length ?d"
    proof (cases n)
      case 0
      with True show ?thesis by simp
    next
      case (Suc m)
      then show ?thesis by (simp add: algebra_simps)
    qed
    have m: "map (\<lambda>k. record_at ?d (?p + ?s * k)) [0..<Suc n] =
        record_at ?d ?p # map (\<lambda>k. record_at ?d (?p + ?s + ?s * k)) [0..<n]"
      by (simp add: upt_conv_Cons map_Suc_upt [symmetric] add.assoc del: upt_Suc)
    have "read_songs (Suc n) hv songs f = read_songs n hv (songs @ [record_at ?d ?p]) ?f'"
      using True by (simp only: read_songs_step if_True)
    also have "\<dots> =
      (if n = 0 \<or> position ?f' + ?s * (n - 1) + 12 \<le> length (content ?f')
       then Inr ((songs @ [record_at ?d ?p]) @
                   map (\<lambda>k. record_at (content ?f') (position ?f' + ?s * k)) [0..<n],
                 ?f'\<lparr>position := position ?f' + ?s * n\<rparr>)
       else Inl StructError)"
      by (rule Suc.IH)
    also have "\<dots> =
      (if ?p + ?s * n + 12 \<le> length ?d
       then Inr (songs @ map (\<lambda>k. record_at ?d (?p + ?s * k)) [0..<Suc n],
                 f\<lparr>position := ?p + ?s * Suc n\<rparr>)
       else Inl StructError)"
      unfolding c m by (simp add: add.assoc)
    finally show ?thesis by simp
  qed
qed

lemma read_music_headers_closed:
  "closed f \<Longrightarrow> read_music_headers f = Inl AssertionError"
  by (simp add: read_music_headers_def)

lemma read_music_headers_not_SONG:
  "\<not> closed f \<Longrightarrow> bytes_at (content f) 0 4 \<noteq> ''SONG'' \<Longrightarrow>
   read_music_headers f = Inl RuntimeError"
  by (simp add: read_music_headers_def seek_set_0 read_4)

lemma read_music_headers_not_SGHD:
  assumes "\<not> closed f" and "bytes_at (content f) 0 4 = ''SONG''"
    and "bytes_at (content f) 8 4 \<noteq> ''SGHD''"
  shows "read_music_headers f = Inl AssertionError"
proof -
  from assms(2) have "4 \<le> length (content f)"
    using bytes_at_tag_length [of "content f" 0] by simp
  then have "min 4 (length (content f)) = 4" by simp
  with assms show ?thesis
    by (simp add: read_music_headers_def seek_set_0 read_4 seek_cur_4)
qed

lemma read_music_headers_short:
  assumes "\<not> closed f" and "bytes_at (content f) 0 4 = ''SONG''"
    and "bytes_at (content f) 8 4 = ''SGHD''" and "\<not> 20 \<le> length (content f)"
  shows "read_music_headers f = Inl StructError"
proof -
  from assms(3) have l: "12 \<le> length (content f)"
    using bytes_at_tag_length [of "content f" 8] by simp
  show ?thesis
  proof (cases "16 \<le> length (content f)")
    case False
    with assms l show ?thesis
      by (simp add: read_music_headers_def seek_set_0 read_4_ok seek_cur_4 read_4
          unpack_BE_I_at)
  next
    case True
    with assms l show ?thesis
      by (simp add: read_music_headers_def seek_set_0 read_4_ok seek_cur_4 read_4
          unpack_BE_I_at unpack_LE_I_at Let_def)
  qed
qed

lemma read_music_headers_eq:
  assumes "\<not> closed f" and "bytes_at (content f) 0 4 = ''SONG''"
    and "bytes_at (content f) 8 4 = ''SGHD''" and "20 \<le> length (content f)"
  shows "read_music_headers f =
     read_songs (nat (from_le (bytes_at (content f) 16 4)))
       (if from_be (bytes_at (content f) 12 4) = 40 then 80 else 70) []
       (f\<lparr>position := (if from_be (bytes_at (content f) 12 4) = 40 then 56 else 20)\<rparr>)"
  using assms
  by (simp add: read_music_headers_def seek_set_0 read_4_ok seek_cur_4 unpack_BE_I_at
      unpack_LE_I_at he_version_def seek_set_20 seek_set_56 Let_def)

lemma read_music_headers_table:
  assumes "\<not> closed f" and "bytes_at (content f) 0 4 = ''SONG''"
    and "bytes_at (content f) 8 4 = ''SGHD''" and "20 \<le> length (content f)"
  shows "read_music_headers f =
     (if from_be (bytes_at (content f) 12 4) = 40
      then table_result f 56 (12 + 9) (nat (from_le (bytes_at (content f) 16 4)))
      else table_result f 20 (12 + 13) (nat (from_le (bytes_at (content f) 16 4))))"
  by (simp add: read_music_headers_eq [OF assms] read_songs_eq table_result_def stride_def)

lemma table_result_Inr:
  assumes "table_result f start step n = Inr (songs, f1)"
  shows "content f1 = content f \<and> closed f1 = closed f \<and> length songs = n
       \<and> (\<forall>s\<in>set songs. 0 \<le> offset s \<and> rate s = None \<and> payload s = None
             \<and> sbng_code_offset s = - 1)"
  using assms
  by (auto simp: table_result_def record_at_def new_SongInfo_def from_le_nonneg split: if_splits)

lemma read_music_headers_Inr:
  assumes "read_music_headers f = Inr (songs, f1)"
  shows "\<not> closed f \<and> content f1 = content f \<and> closed f1 = closed f
       \<and> (\<forall>s\<in>set songs. 0 \<le> offset s \<and> rate s = None \<and> payload s = None
             \<and> sbng_code_offset s = - 1)"
proof -
  have c: "\<not> closed f"
    using assms read_music_headers_closed [of f] by auto
  have m1: "bytes_at (content f) 0 4 = ''SONG''"
    using assms c read_music_headers_not_SONG [of f] by auto
  have m2: "bytes_at (content f) 8 4 = ''SGHD''"
    using assms c m1 read_music_headers_not_SGHD [of f] by auto
  have l: "20 \<le> length (content f)"
    using assms c m1 m2 read_music_headers_short [of f] by auto
  from assms read_music_headers_table [OF c m1 m2 l]
  obtain start step n where "table_result f start step n = Inr (songs, f1)"
    by (auto split: if_splits)
  from table_result_Inr [OF this] c show ?thesis
    by simp
qed

lemma read_music_headers_position:
  "read_music_headers (f\<lparr>position := p\<rparr>) = read_music_headers f"
  by (simp add: read_music_headers_def seek_set_def)

section \<open>One song\<close>

lemma get_song_data_position:
  "get_song_data g s (f\<lparr>position := p\<rparr>) = get_song_data g s f"
  by (simp add: get_song_data_def seek_set_def)

lemma get_song_data_same_file:
  assumes "content f' = content f" and "closed f' = closed f"
  shows "get_song_data g s f' = get_song_data g s f"
proof -
  have "f' = f\<lparr>position := position f'\<rparr>"
    using assms by (rule same_file_eq)
  then have "get_song_data g s f' = get_song_data g s (f\<lparr>position := position f'\<rparr>)"
    by simp
  then show ?thesis
    by (simp only: get_song_data_position)
qed

lemma read_sdat_eq:
  "read_sdat s r h f =
     (if h \<noteq> ''SDAT'' then Inr (s, [Payload_Check_Failed (id' s) (offset s)], f)
      else if \<not> position f + 4 \<le> length (content f) then Inl StructError
      else
        let n = from_be (bytes_at (content f) (position f) 4);
            rest = drop (position f + 4) (content f);
            p = (if n - 8 = - 1 then rest else take (nat (n - 8)) rest)
        in if n - 8 < - 1 then Inl ValueError
           else Inr (s\<lparr>rate := Some r, payload := Some p\<rparr>, [],
                     f\<lparr>position := position f + 4 + length p\<rparr>))"
proof (cases "h = ''SDAT''")
  case False
  then show ?thesis by (simp add: read_sdat_def)
next
  case True
  show ?thesis
  proof (cases "position f + 4 \<le> length (content f)")
    case False
    with True show ?thesis
      by (simp add: read_sdat_def read_4 unpack_BE_I_at)
  next
    case ok: True
    with True show ?thesis
      by (simp add: read_sdat_def read_4_ok unpack_BE_I_at) (simp add: read_def Let_def)
  qed
qed

lemma skip_sbng_eq:
  "skip_sbng g s f =
     (if \<not> position f + 4 \<le> length (content f) then Inl StructError
      else case g of
        Unbound \<Rightarrow> Inl NameError
      | Same_File \<Rightarrow>
          let n = from_be (bytes_at (content f) (position f) 4) in
          if int (position f) + 4 + (n - 8) < 0 then Inl OSError
          else
            let q = nat (int (position f) + 4 + (n - 8)) in
            Inr (s\<lparr>sbng_code_offset := 40\<rparr>, bytes_at (content f) q 4,
                 f\<lparr>position := q + min 4 (length (content f) - q)\<rparr>))"
proof (cases "position f + 4 \<le> length (content f)")
  case False
  then show ?thesis
    by (simp add: skip_sbng_def read_4 unpack_BE_I_at)
next
  case True
  then show ?thesis
    by (cases g)
       (simp_all add: skip_sbng_def read_4_ok unpack_BE_I_at lookup_f_def seek_cur_def Let_def
          read_4)
qed

lemma get_song_data_negative:
  "offset s < 0 \<Longrightarrow> get_song_data g s f = Inl OSError"
  by (simp add: get_song_data_def seek_set_def)

lemma get_song_data_eq:
  assumes "0 \<le> offset s"
  shows "get_song_data g s f =
     (let d = content f; a = nat (offset s); fmt = bytes_at d a 4; tag = bytes_at d (a + 32) 4;
          f6 = f\<lparr>position := a + 32 + min 4 (length d - (a + 32))\<rparr>
      in if fmt \<noteq> ''DIGI''
         then Inr (s, [Unsupported_Format fmt (id' s)], f\<lparr>position := a + min 4 (length d - a)\<rparr>)
         else if \<not> a + 26 \<le> length d then Inl StructError
         else bindE (if tag = ''SBNG'' then skip_sbng g s f6 else Inr (s, tag, f6))
                (\<lambda>(song, h, file). read_sdat song (from_le (bytes_at d (a + 22) 4)) h file))"
proof -
  have n22: "nat (offset s + 22) = nat (offset s) + 22" and n32: "nat (offset s + 32) = nat (offset s) + 32"
    using assms by simp_all
  show ?thesis
    using assms
    by (simp add: get_song_data_def seek_set_def read_4 unpack_LE_I_at Let_def n22 n32 add.assoc)
qed

lemma read_sdat_Inr:
  assumes "read_sdat s r h f = Inr (s', ws, f')"
  shows "content f' = content f \<and> closed f' = closed f
       \<and> id' s' = id' s \<and> offset s' = offset s \<and> size' s' = size' s
       \<and> sbng_code_offset s' = sbng_code_offset s"
  using assms
  by (auto simp: read_sdat_eq Let_def split: if_splits)

lemma skip_sbng_Inr:
  assumes "skip_sbng g s f = Inr (s', h, f')"
  shows "content f' = content f \<and> closed f' = closed f
       \<and> id' s' = id' s \<and> offset s' = offset s \<and> size' s' = size' s
       \<and> sbng_code_offset s' = 40 \<and> rate s' = rate s \<and> payload s' = payload s"
  using assms
  by (auto simp: skip_sbng_eq Let_def split: if_splits f_binding.splits)

lemma get_song_data_Inr:
  assumes "get_song_data g s f = Inr (s', ws, f')"
  shows "content f' = content f \<and> closed f' = closed f
       \<and> id' s' = id' s \<and> offset s' = offset s \<and> size' s' = size' s
       \<and> sbng_code_offset s' =
           (if bytes_at (content f) (nat (offset s)) 4 = ''DIGI''
               \<and> bytes_at (content f) (nat (offset s) + 32) 4 = ''SBNG''
            then 40 else sbng_code_offset s)"
proof (cases "0 \<le> offset s")
  case False
  with assms show ?thesis
    by (simp add: get_song_data_negative)
next
  case True
  let ?d = "content f" and ?a = "nat (offset s)"
  let ?f6 = "f\<lparr>position := ?a + 32 + min 4 (length ?d - (?a + 32))\<rparr>"
  note eq = get_song_data_eq [OF True, of g f, unfolded Let_def]
  show ?thesis
  proof (cases "bytes_at ?d ?a 4 = ''DIGI''")
    case False
    with assms eq show ?thesis by auto
  next
    case digi: True
    show ?thesis
    proof (cases "bytes_at ?d (?a + 32) 4 = ''SBNG''")
      case True
      with assms eq digi obtain s1 h f1 where
        sk: "skip_sbng g s ?f6 = Inr (s1, h, f1)" and rd: "read_sdat s1 (from_le (bytes_at ?d (?a + 22) 4)) h f1 = Inr (s', ws, f')"
        by (auto simp: bindE_Inr_iff split: if_splits)
      from skip_sbng_Inr [OF sk] read_sdat_Inr [OF rd] digi True show ?thesis
        by simp
    next
      case False
      with assms eq digi have
        rd: "read_sdat s (from_le (bytes_at ?d (?a + 22) 4)) (bytes_at ?d (?a + 32) 4) ?f6 = Inr (s', ws, f')"
        by (auto split: if_splits)
      from read_sdat_Inr [OF rd] digi False show ?thesis
        by simp
    qed
  qed
qed


lemma get_song_data_unsupported:
  assumes "0 \<le> offset s" and "bytes_at (content f) (nat (offset s)) 4 \<noteq> ''DIGI''"
  shows "get_song_data g s f =
     Inr (s, [Unsupported_Format (bytes_at (content f) (nat (offset s)) 4) (id' s)],
          f\<lparr>position := nat (offset s) + min 4 (length (content f) - nat (offset s))\<rparr>)"
  using assms by (simp add: get_song_data_eq Let_def)

lemma get_song_data_missing:
  assumes "0 \<le> offset s" and "bytes_at (content f) (nat (offset s)) 4 = ''DIGI''"
    and "nat (offset s) + 26 \<le> length (content f)"
    and "bytes_at (content f) (nat (offset s) + 32) 4 \<noteq> ''SBNG''"
    and "bytes_at (content f) (nat (offset s) + 32) 4 \<noteq> ''SDAT''"
  shows "get_song_data g s f =
     Inr (s, [Payload_Check_Failed (id' s) (offset s)],
          f\<lparr>position := nat (offset s) + 32
                 + min 4 (length (content f) - (nat (offset s) + 32))\<rparr>)"
  using assms by (simp add: get_song_data_eq read_sdat_eq Let_def)

lemma get_song_data_sdat:
  assumes "0 \<le> offset s" and "bytes_at (content f) (nat (offset s)) 4 = ''DIGI''"
    and "bytes_at (content f) (nat (offset s) + 32) 4 = ''SDAT''"
    and "nat (offset s) + 40 \<le> length (content f)"
    and "8 \<le> from_be (bytes_at (content f) (nat (offset s) + 36) 4)"
  shows "get_song_data g s f =
     Inr (s\<lparr>rate := Some (from_le (bytes_at (content f) (nat (offset s) + 22) 4)),
            payload := Some (bytes_at (content f) (nat (offset s) + 40)
                       (nat (from_be (bytes_at (content f) (nat (offset s) + 36) 4) - 8)))\<rparr>,
          [],
          f\<lparr>position := nat (offset s) + 40
                 + length (bytes_at (content f) (nat (offset s) + 40)
                       (nat (from_be (bytes_at (content f) (nat (offset s) + 36) 4) - 8)))\<rparr>)"
proof -
  let ?a = "nat (offset s)" and ?d = "content f"
  have m: "min 4 (length ?d - (?a + 32)) = 4"
    using assms(4) by arith
  have l: "?a + 26 \<le> length ?d"
    using assms(4) by arith
  show ?thesis
    using assms l
    by (simp add: get_song_data_eq read_sdat_eq Let_def m add.assoc)
       (simp add: bytes_at_def)
qed

lemma get_song_data_sbng_unbound:
  assumes "0 \<le> offset s" and "bytes_at (content f) (nat (offset s)) 4 = ''DIGI''"
    and "bytes_at (content f) (nat (offset s) + 32) 4 = ''SBNG''"
    and "nat (offset s) + 40 \<le> length (content f)"
  shows "get_song_data Unbound s f = Inl NameError"
proof -
  let ?a = "nat (offset s)" and ?d = "content f"
  have m: "min 4 (length ?d - (?a + 32)) = 4"
    using assms(4) by arith
  have l: "?a + 26 \<le> length ?d"
    using assms(4) by arith
  show ?thesis
    using assms l
    by (simp add: get_song_data_eq skip_sbng_eq Let_def m add.assoc)
qed

lemma get_song_data_sbng_same:
  assumes "0 \<le> offset s" and "bytes_at (content f) (nat (offset s)) 4 = ''DIGI''"
    and "bytes_at (content f) (nat (offset s) + 32) 4 = ''SBNG''"
    and "nat (offset s) + 40 \<le> length (content f)"
    and "q = nat (offset s) + 32 + nat (from_be (bytes_at (content f) (nat (offset s) + 36) 4))"
  shows "get_song_data Same_File s f =
     read_sdat (s\<lparr>sbng_code_offset := 40\<rparr>)
       (from_le (bytes_at (content f) (nat (offset s) + 22) 4))
       (bytes_at (content f) q 4)
       (f\<lparr>position := q + min 4 (length (content f) - q)\<rparr>)"
proof -
  let ?a = "nat (offset s)" and ?d = "content f"
  let ?L = "from_be (bytes_at ?d (?a + 36) 4)"
  have m: "min 4 (length ?d - (?a + 32)) = 4"
    using assms(4) by arith
  have l: "?a + 26 \<le> length ?d"
    using assms(4) by arith
  have L: "0 \<le> ?L"
    by (rule from_be_nonneg)
  then have n: "\<not> offset s + (32 + ?L) < 0"
    using assms(1) by arith
  have q: "nat (offset s + (32 + ?L)) = q"
    using L assms(1,5) by arith
  show ?thesis
    using assms(1-4) l
    by (simp add: get_song_data_eq skip_sbng_eq Let_def m add.assoc)
       (simp add: n q)
qed

lemma get_song_data_sbng_missing:
  assumes "0 \<le> offset s" and "bytes_at (content f) (nat (offset s)) 4 = ''DIGI''"
    and "bytes_at (content f) (nat (offset s) + 32) 4 = ''SBNG''"
    and "nat (offset s) + 40 \<le> length (content f)"
    and "q = nat (offset s) + 32 + nat (from_be (bytes_at (content f) (nat (offset s) + 36) 4))"
    and "bytes_at (content f) q 4 \<noteq> ''SDAT''"
  shows "get_song_data Same_File s f =
     Inr (s\<lparr>sbng_code_offset := 40\<rparr>, [Payload_Check_Failed (id' s) (offset s)],
          f\<lparr>position := q + min 4 (length (content f) - q)\<rparr>)"
  using assms(6)
  by (simp add: get_song_data_sbng_same [OF assms(1-5)] read_sdat_eq)

lemma get_song_data_ok:
  assumes "\<not> isl (get_song_data g s f)"
  shows "\<exists>f'. get_song_data g s f = Inr (song_result g f s, song_warnings g f s, f')"
proof (cases "get_song_data g s f")
  case (Inl e)
  with assms show ?thesis by simp
next
  case (Inr r)
  then show ?thesis
    by (cases r) (simp add: song_result_def song_warnings_def)
qed

lemma song_result_Inr:
  "get_song_data g s f = Inr (s', ws, f') \<Longrightarrow> song_result g f s = s' \<and> song_warnings g f s = ws"
  by (simp add: song_result_def song_warnings_def)

lemma song_result_same_file:
  "content f' = content f \<Longrightarrow> closed f' = closed f \<Longrightarrow> song_result g f' = song_result g f"
  by (rule ext) (simp add: song_result_def get_song_data_same_file [of f' f])

lemma song_warnings_same_file:
  "content f' = content f \<Longrightarrow> closed f' = closed f \<Longrightarrow> song_warnings g f' = song_warnings g f"
  by (rule ext) (simp add: song_warnings_def get_song_data_same_file [of f' f])

lemma song_result_frame:
  assumes "\<not> isl (get_song_data g s f)"
  shows "id' (song_result g f s) = id' s \<and> offset (song_result g f s) = offset s
       \<and> size' (song_result g f s) = size' s
       \<and> sbng_code_offset (song_result g f s) =
           (if bytes_at (content f) (nat (offset s)) 4 = ''DIGI''
               \<and> bytes_at (content f) (nat (offset s) + 32) 4 = ''SBNG''
            then 40 else sbng_code_offset s)"
proof -
  from get_song_data_ok [OF assms] obtain f' where
    "get_song_data g s f = Inr (song_result g f s, song_warnings g f s, f')"
    by blast
  from get_song_data_Inr [OF this] show ?thesis
    by simp
qed

section \<open>The loop over the songs and the whole extraction\<close>

lemma get_songs_data_ok:
  assumes "\<forall>s\<in>set songs. \<not> isl (get_song_data g s f)"
  shows "\<exists>f'. get_songs_data g songs done log f =
           Inr (done @ map (song_result g f) songs,
                log @ concat (map (song_warnings g f) songs), f')
         \<and> content f' = content f \<and> closed f' = closed f"
  using assms
proof (induction songs arbitrary: "done" log f)
  case Nil
  show ?case by simp
next
  case (Cons s songs)
  from Cons.prems have "\<not> isl (get_song_data g s f)"
    by simp
  then obtain f1 where
    s: "get_song_data g s f = Inr (song_result g f s, song_warnings g f s, f1)"
    using get_song_data_ok by blast
  then have same: "content f1 = content f" "closed f1 = closed f"
    using get_song_data_Inr by blast+
  have "\<forall>x\<in>set songs. \<not> isl (get_song_data g x f1)"
    using Cons.prems by (simp add: get_song_data_same_file [OF same])
  from Cons.IH [OF this, of "done @ [song_result g f s]" "log @ song_warnings g f s"]
  obtain f' where
    r: "get_songs_data g songs (done @ [song_result g f s]) (log @ song_warnings g f s) f1 =
          Inr ((done @ [song_result g f s]) @ map (song_result g f1) songs,
               (log @ song_warnings g f s) @ concat (map (song_warnings g f1) songs), f')"
    and same': "content f' = content f1" "closed f' = closed f1"
    by blast
  have "get_songs_data g (s # songs) done log f =
          Inr (done @ map (song_result g f) (s # songs),
               log @ concat (map (song_warnings g f) (s # songs)), f')"
    using s r by (simp add: song_result_same_file [OF same] song_warnings_same_file [OF same])
  with same same' show ?case
    by auto
qed

lemma get_songs_data_Inr:
  assumes "get_songs_data g songs done log f = Inr (res, log', f')"
  shows "\<forall>s\<in>set songs. \<not> isl (get_song_data g s f)"
  using assms
proof (induction songs arbitrary: "done" log f)
  case Nil
  show ?case by simp
next
  case (Cons s songs)
  from Cons.prems obtain s1 ws f1 where
    s: "get_song_data g s f = Inr (s1, ws, f1)"
    and r: "get_songs_data g songs (done @ [s1]) (log @ ws) f1 = Inr (res, log', f')"
    by (auto simp: bindE_Inr_iff)
  from s have same: "content f1 = content f" "closed f1 = closed f"
    using get_song_data_Inr by blast+
  from Cons.IH [OF r] have "\<forall>x\<in>set songs. \<not> isl (get_song_data g x f)"
    by (simp add: get_song_data_same_file [OF same])
  with s show ?case by simp
qed

lemma get_songs_data_Inl:
  assumes "\<forall>s\<in>set pre. \<not> isl (get_song_data g s f)" and "get_song_data g s f = Inl e"
  shows "get_songs_data g (pre @ s # post) done log f = Inl e"
  using assms
proof (induction pre arbitrary: "done" log f)
  case Nil
  then show ?case by simp
next
  case (Cons x pre)
  from Cons.prems have "\<not> isl (get_song_data g x f)"
    by simp
  then obtain f1 where
    x: "get_song_data g x f = Inr (song_result g f x, song_warnings g f x, f1)"
    using get_song_data_ok by blast
  then have same: "content f1 = content f" "closed f1 = closed f"
    using get_song_data_Inr by blast+
  have "get_songs_data g (pre @ s # post) (done @ [song_result g f x])
          (log @ song_warnings g f x) f1 = Inl e"
    using Cons.prems by (intro Cons.IH) (simp_all add: get_song_data_same_file [OF same])
  with x show ?case by simp
qed

lemma get_music_data_header_error:
  "read_music_headers f = Inl e \<Longrightarrow> get_music_data g f = Inl e"
  by (simp add: get_music_data_def)

lemma get_music_data_songs:
  assumes "read_music_headers f = Inr (songs, f1)"
  shows "get_music_data g f = get_songs_data g songs [] [] f1"
  using assms read_music_headers_Inr [OF assms]
  by (simp add: get_music_data_def)

lemma get_music_data_position:
  "get_music_data g (f\<lparr>position := p\<rparr>) = get_music_data g f"
  by (simp add: get_music_data_def read_music_headers_position)

lemma get_music_data_ok:
  assumes "read_music_headers f = Inr (songs, f1)"
    and "\<forall>s\<in>set songs. \<not> isl (get_song_data g s f)"
  shows "\<exists>f'. get_music_data g f =
           Inr (map (song_result g f) songs, concat (map (song_warnings g f) songs), f')
         \<and> content f' = content f \<and> closed f' = closed f"
proof -
  from read_music_headers_Inr [OF assms(1)]
  have same: "content f1 = content f" "closed f1 = closed f"
    by simp_all
  have "\<forall>s\<in>set songs. \<not> isl (get_song_data g s f1)"
    using assms(2) by (simp add: get_song_data_same_file [OF same])
  from get_songs_data_ok [OF this, of "[]" "[]"] obtain f' where
    "get_songs_data g songs [] [] f1 =
       Inr (map (song_result g f1) songs, concat (map (song_warnings g f1) songs), f')"
    and "content f' = content f1" and "closed f' = closed f1"
    by auto
  then show ?thesis
    using same
    by (simp add: get_music_data_songs [OF assms(1)] song_result_same_file [OF same]
        song_warnings_same_file [OF same])
qed

lemma get_music_data_Inr:
  assumes "get_music_data g f = Inr (res, log, f')"
  shows "\<exists>songs f1. read_music_headers f = Inr (songs, f1)
       \<and> (\<forall>s\<in>set songs. \<not> isl (get_song_data g s f))
       \<and> res = map (song_result g f) songs
       \<and> log = concat (map (song_warnings g f) songs)
       \<and> content f' = content f \<and> closed f' = closed f"
proof -
  from assms obtain songs f1 where h: "read_music_headers f = Inr (songs, f1)"
    by (cases "read_music_headers f") (auto simp: get_music_data_def)
  from read_music_headers_Inr [OF h]
  have same: "content f1 = content f" "closed f1 = closed f"
    by simp_all
  from assms have r: "get_songs_data g songs [] [] f1 = Inr (res, log, f')"
    by (simp add: get_music_data_songs [OF h])
  from get_songs_data_Inr [OF r] have ok: "\<forall>s\<in>set songs. \<not> isl (get_song_data g s f)"
    by (simp add: get_song_data_same_file [OF same])
  from get_music_data_ok [OF h ok, of ] assms h ok show ?thesis
    by auto
qed

lemma get_music_data_entry:
  assumes "read_music_headers f = Inr (songs, f1)" and "k < length songs"
    and "\<forall>j<length songs. j \<noteq> k \<longrightarrow> \<not> isl (get_song_data g (songs ! j) f)"
    and "get_song_data g (songs ! k) f = Inr (s', ws, f2)"
  shows "\<exists>res log f'. get_music_data g f = Inr (res, log, f')
       \<and> length res = length songs \<and> res ! k = s' \<and> set ws \<subseteq> set log
       \<and> (\<forall>j<length songs. res ! j = song_result g f (songs ! j))"
proof -
  have "\<forall>j<length songs. \<not> isl (get_song_data g (songs ! j) f)"
    using assms(3,4) by (metis sum.disc(2))
  then have ok: "\<forall>s\<in>set songs. \<not> isl (get_song_data g s f)"
    by (simp add: all_set_conv_all_nth)
  from get_music_data_ok [OF assms(1) ok] obtain f' where
    r: "get_music_data g f =
         Inr (map (song_result g f) songs, concat (map (song_warnings g f) songs), f')"
    by blast
  have "song_warnings g f (songs ! k) = ws"
    using song_result_Inr [OF assms(4)] by simp
  then have "ws \<in> set (map (song_warnings g f) songs)"
    using assms(2) by (auto intro!: imageI nth_mem)
  then have "set ws \<subseteq> set (concat (map (song_warnings g f) songs))"
    by auto
  with r assms(2) song_result_Inr [OF assms(4)] show ?thesis
    by simp
qed

text \<open>
  With no global \<open>f\<close>, the first track with an inline code block ends the extraction.
\<close>

lemma get_music_data_sbng_unbound:
  assumes hdr: "read_music_headers f = Inr (songs, f1)" and k: "k < length songs"
    and before: "\<forall>j<k. \<not> isl (get_song_data Unbound (songs ! j) f)"
    and digi: "bytes_at (content f) (nat (offset (songs ! k))) 4 = ''DIGI''"
    and sbng: "bytes_at (content f) (nat (offset (songs ! k)) + 32) 4 = ''SBNG''"
    and field: "nat (offset (songs ! k)) + 40 \<le> length (content f)"
  shows "get_music_data Unbound f = Inl NameError"
proof -
  from read_music_headers_Inr [OF hdr] k
  have same: "content f1 = content f" "closed f1 = closed f" and off: "0 \<le> offset (songs ! k)"
    by simp_all
  have e: "get_song_data Unbound (songs ! k) f1 = Inl NameError"
    using get_song_data_sbng_unbound [OF off digi sbng field]
    by (simp add: get_song_data_same_file [OF same])
  have "\<forall>s\<in>set (take k songs). \<not> isl (get_song_data Unbound s f1)"
    using before k
    by (auto simp: in_set_conv_nth get_song_data_same_file [OF same])
  from get_songs_data_Inl [OF this e, of "drop (Suc k) songs" "[]" "[]"]
  have "get_songs_data Unbound songs [] [] f1 = Inl NameError"
    using k by (simp add: id_take_nth_drop [symmetric])
  then show ?thesis
    by (simp add: get_music_data_songs [OF hdr])
qed

section \<open>The example containers, evaluated\<close>

lemmas file_defs = opened_def v2_file_def v1_file_def digi_track_def zeros_def v1_header_def
  truncated_file_def skip_file_def sbng_file_def sbng_skip_file_def

lemma at_position:
  "\<lparr>content = data, position = p, closed = False\<rparr> = (opened data)\<lparr>position := p\<rparr>"
  by (simp add: opened_def)

lemma v2_headers:
  "read_music_headers (opened v2_file) =
     Inr ([new_SongInfo 1 98 43, new_SongInfo 2 141 44],
          \<lparr>content = v2_file, position = 98, closed = False\<rparr>)"
proof -
  have "read_music_headers (opened v2_file) = table_result (opened v2_file) 56 (12 + 9) 2"
    using read_music_headers_table [of "opened v2_file"]
    by (simp add: file_defs bytes_at_def from_be_def)
  then show ?thesis
    by (simp add: table_result_def record_at_def bytes_at_def upt_conv_Cons)
       (simp add: file_defs)
qed

lemma v2_bytes:
  "length v2_file = 185"
  "bytes_at v2_file 98 4 = ''DIGI''"
  "from_le (bytes_at v2_file 120 4) = 11025"
  "bytes_at v2_file 130 4 = ''SDAT''"
  "from_be (bytes_at v2_file 134 4) = 11"
  "bytes_at v2_file 138 3 = ''abc''"
  by (simp_all add: file_defs bytes_at_def from_be_def)

lemma v2_song_0:
  "get_song_data g (new_SongInfo 1 98 43) (opened v2_file) =
     Inr (\<lparr>id' = 1, offset = 98, size' = 43, rate = Some 11025, payload = Some ''abc'',
            sbng_code_offset = - 1\<rparr>, [],
          \<lparr>content = v2_file, position = 141, closed = False\<rparr>)"
  using get_song_data_sdat [of "new_SongInfo 1 98 43" "opened v2_file" g]
  by (simp add: new_SongInfo_def opened_def bytes_at_def from_be_def)
     (simp add: file_defs)

lemma v2_song_1:
  "get_song_data g (new_SongInfo 2 141 44) (opened v2_file) =
     Inr (\<lparr>id' = 2, offset = 141, size' = 44, rate = Some 22050, payload = Some ''wxyz'',
            sbng_code_offset = - 1\<rparr>, [],
          \<lparr>content = v2_file, position = 185, closed = False\<rparr>)"
  using get_song_data_sdat [of "new_SongInfo 2 141 44" "opened v2_file" g]
  by (simp add: new_SongInfo_def opened_def bytes_at_def from_be_def)
     (simp add: file_defs)

lemma v2_music:
  "get_music_data g (opened v2_file) =
     Inr ([\<lparr>id' = 1, offset = 98, size' = 43, rate = Some 11025, payload = Some ''abc'',
             sbng_code_offset = - 1\<rparr>,
           \<lparr>id' = 2, offset = 141, size' = 44, rate = Some 22050, payload = Some ''wxyz'',
             sbng_code_offset = - 1\<rparr>], [],
          \<lparr>content = v2_file, position = 185, closed = False\<rparr>)"
  by (simp add: get_music_data_songs [OF v2_headers] at_position get_song_data_position
      v2_song_0 v2_song_1)




lemma sbng_headers:
  "read_music_headers (opened sbng_file) =
     Inr ([new_SongInfo 7 45 55], \<lparr>content = sbng_file, position = 45, closed = False\<rparr>)"
proof -
  have "read_music_headers (opened sbng_file) = table_result (opened sbng_file) 20 (12 + 13) 1"
    using read_music_headers_table [of "opened sbng_file"]
    by (simp add: file_defs bytes_at_def from_be_def)
  then show ?thesis
    by (simp add: table_result_def record_at_def bytes_at_def upt_conv_Cons)
       (simp add: file_defs)
qed

lemma sbng_bytes:
  "length sbng_file = 100"
  "bytes_at sbng_file 45 4 = ''DIGI''"
  "from_le (bytes_at sbng_file 67 4) = 11025"
  "bytes_at sbng_file 77 4 = ''SBNG''"
  "from_be (bytes_at sbng_file 81 4) = 12"
  "bytes_at sbng_file 89 4 = ''SDAT''"
  "from_be (bytes_at sbng_file 93 4) = 11"
  "drop 97 sbng_file = ''abc''"
  by (simp_all add: file_defs bytes_at_def from_be_def)

lemma sbng_song_unbound:
  "get_song_data Unbound (new_SongInfo 7 45 55)
     \<lparr>content = sbng_file, position = p, closed = False\<rparr> = Inl NameError"
  using get_song_data_sbng_unbound [of "new_SongInfo 7 45 55"
      "\<lparr>content = sbng_file, position = p, closed = False\<rparr>"]
  by (simp add: new_SongInfo_def sbng_bytes)

lemma sbng_song_same:
  "get_song_data Same_File (new_SongInfo 7 45 55)
     \<lparr>content = sbng_file, position = p, closed = False\<rparr> =
   Inr (\<lparr>id' = 7, offset = 45, size' = 55, rate = Some 11025, payload = Some ''abc'',
          sbng_code_offset = 40\<rparr>, [],
        \<lparr>content = sbng_file, position = 100, closed = False\<rparr>)"
  using get_song_data_sbng_same [of "new_SongInfo 7 45 55"
      "\<lparr>content = sbng_file, position = p, closed = False\<rparr>" 89]
  by (simp add: new_SongInfo_def sbng_bytes read_sdat_eq)

lemma sbng_music_same:
  "get_music_data Same_File (opened sbng_file) =
       Inr ([\<lparr>id' = 7, offset = 45, size' = 55, rate = Some 11025, payload = Some ''abc'',
               sbng_code_offset = 40\<rparr>], [],
            \<lparr>content = sbng_file, position = 100, closed = False\<rparr>)"
  by (simp add: get_music_data_songs [OF sbng_headers] sbng_song_same)

lemma skip_headers:
  "read_music_headers (opened skip_file) =
     Inr ([new_SongInfo 1 95 8, new_SongInfo 2 103 36, new_SongInfo 3 139 43],
          \<lparr>content = skip_file, position = 95, closed = False\<rparr>)"
proof -
  have "read_music_headers (opened skip_file) = table_result (opened skip_file) 20 (12 + 13) 3"
    using read_music_headers_table [of "opened skip_file"]
    by (simp add: file_defs bytes_at_def from_be_def)
  then show ?thesis
    by (simp add: table_result_def record_at_def bytes_at_def upt_conv_Cons)
       (simp add: file_defs)
qed

lemma skip_bytes:
  "length skip_file = 182"
  "bytes_at skip_file 95 4 = ''TALK''"
  "bytes_at skip_file 103 4 = ''DIGI''"
  "bytes_at skip_file 135 4 = ''XXXX''"
  "bytes_at skip_file 139 4 = ''DIGI''"
  "from_le (bytes_at skip_file 161 4) = 11025"
  "bytes_at skip_file 171 4 = ''SDAT''"
  "from_be (bytes_at skip_file 175 4) = 11"
  "bytes_at skip_file 179 3 = ''abc''"
  by (simp_all add: file_defs bytes_at_def from_be_def)

lemma skip_song_0:
  "get_song_data g (new_SongInfo 1 95 8) (opened skip_file) =
     Inr (new_SongInfo 1 95 8, [Unsupported_Format ''TALK'' 1],
          \<lparr>content = skip_file, position = 99, closed = False\<rparr>)"
  using get_song_data_unsupported [of "new_SongInfo 1 95 8" "opened skip_file" g]
  by (simp add: new_SongInfo_def opened_def skip_bytes)

lemma skip_song_1:
  "get_song_data g (new_SongInfo 2 103 36) (opened skip_file) =
     Inr (new_SongInfo 2 103 36, [Payload_Check_Failed 2 103],
          \<lparr>content = skip_file, position = 139, closed = False\<rparr>)"
  using get_song_data_missing [of "new_SongInfo 2 103 36" "opened skip_file" g]
  by (simp add: new_SongInfo_def opened_def skip_bytes)

lemma skip_song_2:
  "get_song_data g (new_SongInfo 3 139 43) (opened skip_file) =
     Inr (\<lparr>id' = 3, offset = 139, size' = 43, rate = Some 11025, payload = Some ''abc'',
            sbng_code_offset = - 1\<rparr>, [],
          \<lparr>content = skip_file, position = 182, closed = False\<rparr>)"
  using get_song_data_sdat [of "new_SongInfo 3 139 43" "opened skip_file" g]
  by (simp add: new_SongInfo_def opened_def skip_bytes)

lemma skip_music:
  "get_music_data g (opened skip_file) =
     Inr ([new_SongInfo 1 95 8, new_SongInfo 2 103 36,
           \<lparr>id' = 3, offset = 139, size' = 43, rate = Some 11025, payload = Some ''abc'',
             sbng_code_offset = - 1\<rparr>],
          [Unsupported_Format ''TALK'' 1, Payload_Check_Failed 2 103],
          \<lparr>content = skip_file, position = 182, closed = False\<rparr>)"
  by (simp add: get_music_data_songs [OF skip_headers] at_position get_song_data_position
      skip_song_0 skip_song_1 skip_song_2)

lemma sbng_skip_headers:
  "read_music_headers (opened sbng_skip_file) =
     Inr ([new_SongInfo 1 70 48, new_SongInfo 2 118 43],
          \<lparr>content = sbng_skip_file, position = 70, closed = False\<rparr>)"
proof -
  have "read_music_headers (opened sbng_skip_file) =
          table_result (opened sbng_skip_file) 20 (12 + 13) 2"
    using read_music_headers_table [of "opened sbng_skip_file"]
    by (simp add: file_defs bytes_at_def from_be_def)
  then show ?thesis
    by (simp add: table_result_def record_at_def bytes_at_def upt_conv_Cons)
       (simp add: file_defs)
qed

lemma sbng_skip_bytes:
  "length sbng_skip_file = 161"
  "bytes_at sbng_skip_file 70 4 = ''DIGI''"
  "bytes_at sbng_skip_file 102 4 = ''SBNG''"
  "from_be (bytes_at sbng_skip_file 106 4) = 12"
  "bytes_at sbng_skip_file 114 4 = ''XXXX''"
  "bytes_at sbng_skip_file 118 4 = ''DIGI''"
  "from_le (bytes_at sbng_skip_file 140 4) = 11025"
  "bytes_at sbng_skip_file 150 4 = ''SDAT''"
  "from_be (bytes_at sbng_skip_file 154 4) = 11"
  "bytes_at sbng_skip_file 158 3 = ''abc''"
  by (simp_all add: file_defs bytes_at_def from_be_def)

lemma sbng_skip_song_0_unbound:
  "get_song_data Unbound (new_SongInfo 1 70 48)
     \<lparr>content = sbng_skip_file, position = p, closed = False\<rparr> = Inl NameError"
  using get_song_data_sbng_unbound [of "new_SongInfo 1 70 48"
      "\<lparr>content = sbng_skip_file, position = p, closed = False\<rparr>"]
  by (simp add: new_SongInfo_def sbng_skip_bytes)

lemma sbng_skip_song_0_same:
  "get_song_data Same_File (new_SongInfo 1 70 48)
     \<lparr>content = sbng_skip_file, position = p, closed = False\<rparr> =
   Inr (\<lparr>id' = 1, offset = 70, size' = 48, rate = None, payload = None,
          sbng_code_offset = 40\<rparr>, [Payload_Check_Failed 1 70],
        \<lparr>content = sbng_skip_file, position = 118, closed = False\<rparr>)"
  using get_song_data_sbng_missing [of "new_SongInfo 1 70 48"
      "\<lparr>content = sbng_skip_file, position = p, closed = False\<rparr>" 114]
  by (simp add: new_SongInfo_def sbng_skip_bytes)

lemma sbng_skip_song_1:
  "get_song_data g (new_SongInfo 2 118 43)
     \<lparr>content = sbng_skip_file, position = p, closed = False\<rparr> =
     Inr (\<lparr>id' = 2, offset = 118, size' = 43, rate = Some 11025, payload = Some ''abc'',
            sbng_code_offset = - 1\<rparr>, [],
          \<lparr>content = sbng_skip_file, position = 161, closed = False\<rparr>)"
  using get_song_data_sdat [of "new_SongInfo 2 118 43"
      "\<lparr>content = sbng_skip_file, position = p, closed = False\<rparr>" g]
  by (simp add: new_SongInfo_def sbng_skip_bytes)

section \<open>The inline code block\<close>

text \<open>
  Claim C1. The container \<open>sbng_file\<close> has one \<open>DIGI\<close> track with an \<open>SBNG\<close> block of
  declared length 12 before its \<open>SDAT\<close> chunk. With no global \<open>f\<close> bound (the class
  used from an importing module), line 105 raises \<open>NameError\<close> and the whole extraction
  returns nothing. Only when \<open>f\<close> is bound to the file itself, as the script's line 316
  happens to do, is the block skipped: rate 11025, payload \<open>abc\<close> (those of the same
  track without the block, in \<open>v1_file\<close>) and the inline-code offset 40.
\<close>

theorem C1_sbng_name_error:
  "get_music_data Unbound (opened sbng_file) = Inl NameError
   \<and> get_music_data Same_File (opened sbng_file) =
       Inr ([\<lparr>id' = 7, offset = 45, size' = 55, rate = Some 11025, payload = Some ''abc'',
               sbng_code_offset = 40\<rparr>], [],
            \<lparr>content = sbng_file, position = 100, closed = False\<rparr>)"
  by (simp add: get_music_data_songs [OF sbng_headers] sbng_song_unbound sbng_song_same)

section \<open>A payload cut short\<close>




section \<open>Schema detection\<close>

text \<open>
  Claim C3. On an open container with both magic tags and the 20 bytes of the fixed
  header, the header reader decides the layout from the big-endian header length at
  offset 12 alone: when it is 40, the descriptor table is read from byte 56 with records
  21 bytes apart (12 bytes of descriptor and 9 trailing bytes); for every other value,
  from byte 20 with records 25 bytes apart (12 and 13). The declared length is used for
  nothing else. The number of records is the little-endian count at offset 16.
\<close>

theorem C3_schema_detection:
  assumes "\<not> closed f" and "bytes_at (content f) 0 4 = ''SONG''"
    and "bytes_at (content f) 8 4 = ''SGHD''" and "20 \<le> length (content f)"
  shows "read_music_headers f =
     (if from_be (bytes_at (content f) 12 4) = 40
      then table_result f 56 (12 + 9) (nat (from_le (bytes_at (content f) 16 4)))
      else table_result f 20 (12 + 13) (nat (from_le (bytes_at (content f) 16 4))))"
  using assms by (rule read_music_headers_table)

theorem C3_schema_detection_witness:
  "read_music_headers (opened v2_file) =
     Inr ([new_SongInfo 1 98 43, new_SongInfo 2 141 44],
          \<lparr>content = v2_file, position = 98, closed = False\<rparr>)
   \<and> read_music_headers (opened v1_file) =
     Inr ([new_SongInfo 7 45 43], \<lparr>content = v1_file, position = 45, closed = False\<rparr>)"
proof -
  have "read_music_headers (opened v2_file) = table_result (opened v2_file) 56 (12 + 9) 2"
    using C3_schema_detection [of "opened v2_file"]
    by (simp add: file_defs bytes_at_def from_be_def)
  moreover have "read_music_headers (opened v1_file) = table_result (opened v1_file) 20 (12 + 13) 1"
    using C3_schema_detection [of "opened v1_file"]
    by (simp add: file_defs bytes_at_def from_be_def)
  ultimately show ?thesis
    by (simp add: table_result_def record_at_def bytes_at_def upt_conv_Cons)
       (simp add: file_defs)
qed

section \<open>The descriptor table\<close>

text \<open>
  Claim C4. For an open container with both magic tags whose table holds the 12
  descriptor bytes of each of the \<open>N\<close> records it declares, the header reader returns
  exactly \<open>N\<close> descriptors, in table order, and the \<open>k\<close>-th has as id, offset and size
  the three consecutive little-endian integers of 4 bytes at the start of the \<open>k\<close>-th
  record; rate and payload are absent and the inline-code offset is -1.
\<close>

theorem C4_descriptors_in_table_order:
  fixes f :: BinaryIO
  defines "d \<equiv> content f"
  defines "N \<equiv> nat (from_le (bytes_at d 16 4))"
  defines "start \<equiv> (if from_be (bytes_at d 12 4) = 40 then 56 else 20)"
  defines "step \<equiv> (if from_be (bytes_at d 12 4) = 40 then 21 else 25)"
  defines "songs \<equiv> map (\<lambda>k. record_at d (start + step * k)) [0..<N]"
  assumes "\<not> closed f" and "bytes_at d 0 4 = ''SONG''" and "bytes_at d 8 4 = ''SGHD''"
    and "20 \<le> length d" and "N = 0 \<or> start + step * (N - 1) + 12 \<le> length d"
  shows "read_music_headers f = Inr (songs, f\<lparr>position := start + step * N\<rparr>)
       \<and> length songs = N
       \<and> (\<forall>k<N. songs ! k =
             \<lparr>id' = from_le (bytes_at d (start + step * k) 4),
              offset = from_le (bytes_at d (start + step * k + 4) 4),
              size' = from_le (bytes_at d (start + step * k + 8) 4),
              rate = None, payload = None, sbng_code_offset = - 1\<rparr>)"
proof -
  have "read_music_headers f = table_result f start step N"
    using read_music_headers_table [of f] assms(6-9)
    by (simp add: d_def N_def start_def step_def)
  with assms(10) have "read_music_headers f = Inr (songs, f\<lparr>position := start + step * N\<rparr>)"
    by (simp add: table_result_def songs_def d_def)
  moreover have "length songs = N"
    by (simp add: songs_def)
  moreover have "\<forall>k<N. songs ! k =
             \<lparr>id' = from_le (bytes_at d (start + step * k) 4),
              offset = from_le (bytes_at d (start + step * k + 4) 4),
              size' = from_le (bytes_at d (start + step * k + 8) 4),
              rate = None, payload = None, sbng_code_offset = - 1\<rparr>"
    by (simp add: songs_def record_at_def new_SongInfo_def)
  ultimately show ?thesis
    by simp
qed

theorem C4_descriptors_in_table_order_witness:
  "read_music_headers (opened v2_file) =
     Inr ([\<lparr>id' = 1, offset = 98, size' = 43, rate = None, payload = None,
             sbng_code_offset = - 1\<rparr>,
           \<lparr>id' = 2, offset = 141, size' = 44, rate = None, payload = None,
             sbng_code_offset = - 1\<rparr>],
          \<lparr>content = v2_file, position = 98, closed = False\<rparr>)"
proof -
  have l: "length v2_file = 185"
    by (simp add: file_defs)
  have "read_music_headers (opened v2_file) =
     Inr (map (\<lambda>k. record_at v2_file (56 + 21 * k)) [0..<2], (opened v2_file)\<lparr>position := 56 + 21 * 2\<rparr>)"
    using C4_descriptors_in_table_order [of "opened v2_file"] l
    by (simp add: opened_def) (simp add: file_defs bytes_at_def from_be_def)
  then show ?thesis
    by (simp add: record_at_def new_SongInfo_def bytes_at_def upt_conv_Cons)
       (simp add: file_defs)
qed

section \<open>A well-formed track\<close>

text \<open>
  Claim C5. Let the header reader return the descriptors \<open>songs\<close>, and let the track of
  the \<open>k\<close>-th one be well-formed: \<open>DIGI\<close> at its offset \<open>a\<close>, \<open>SDAT\<close> at \<open>a + 32\<close>,
  a big-endian declared size \<open>n\<close> of at least 8 at \<open>a + 36\<close>, and the \<open>n - 8\<close> payload
  bytes present from \<open>a + 40\<close> on. Then the iteration for this song raises nothing and
  logs nothing, and leaves the song with the little-endian rate read at \<open>a + 22\<close> and a
  payload of exactly \<open>n - 8\<close> bytes, those that follow the size field. When no other
  song of the batch raises, the extraction returns a list as long as \<open>songs\<close> whose
  \<open>k\<close>-th entry is this song.
\<close>

theorem C5_digi_sdat_success:
  fixes f :: BinaryIO and songs :: "SongInfo list" and k :: nat
  defines "d \<equiv> content f"
  defines "s \<equiv> songs ! k"
  defines "a \<equiv> nat (offset s)"
  defines "n \<equiv> from_be (bytes_at d (a + 36) 4)"
  defines "s' \<equiv> s\<lparr>rate := Some (from_le (bytes_at d (a + 22) 4)),
                   payload := Some (bytes_at d (a + 40) (nat (n - 8)))\<rparr>"
  assumes hdr: "read_music_headers f = Inr (songs, f1)" and k: "k < length songs"
    and digi: "bytes_at d a 4 = ''DIGI''" and sdat: "bytes_at d (a + 32) 4 = ''SDAT''"
    and sz: "8 \<le> n" and present: "a + 40 + nat (n - 8) \<le> length d"
  shows "get_song_data g s f = Inr (s', [], f\<lparr>position := a + 40 + nat (n - 8)\<rparr>)
       \<and> length (bytes_at d (a + 40) (nat (n - 8))) = nat (n - 8)
       \<and> ((\<forall>j<length songs. j \<noteq> k \<longrightarrow> \<not> isl (get_song_data g (songs ! j) f)) \<longrightarrow>
            (\<exists>res log f'. get_music_data g f = Inr (res, log, f')
               \<and> length res = length songs \<and> res ! k = s'))"
proof -
  have off: "0 \<le> offset s"
    using read_music_headers_Inr [OF hdr] k by (simp add: s_def)
  have len: "length (bytes_at d (a + 40) (nat (n - 8))) = nat (n - 8)"
    using present by (simp add: length_bytes_at)
  have one: "get_song_data g s f = Inr (s', [], f\<lparr>position := a + 40 + nat (n - 8)\<rparr>)"
    using get_song_data_sdat [of s f g] off digi sdat sz present len
    by (simp add: d_def a_def n_def s'_def)
  have "\<exists>res log f'. get_music_data g f = Inr (res, log, f')
               \<and> length res = length songs \<and> res ! k = s'"
    if "\<forall>j<length songs. j \<noteq> k \<longrightarrow> \<not> isl (get_song_data g (songs ! j) f)"
    using get_music_data_entry [OF hdr k that] one
    by (auto simp: s_def)
  with one len show ?thesis
    by blast
qed

theorem C5_digi_sdat_success_witness:
  "get_song_data Unbound (new_SongInfo 1 98 43) (opened v2_file) =
     Inr (\<lparr>id' = 1, offset = 98, size' = 43, rate = Some 11025, payload = Some ''abc'',
            sbng_code_offset = - 1\<rparr>, [],
          \<lparr>content = v2_file, position = 141, closed = False\<rparr>)
   \<and> (\<exists>res log f'. get_music_data Unbound (opened v2_file) = Inr (res, log, f')
         \<and> length res = 2
         \<and> res ! 0 = \<lparr>id' = 1, offset = 98, size' = 43, rate = Some 11025,
                       payload = Some ''abc'', sbng_code_offset = - 1\<rparr>)"
proof -
  have others: "\<forall>j<length [new_SongInfo 1 98 43, new_SongInfo 2 141 44]. j \<noteq> 0 \<longrightarrow>
      \<not> isl (get_song_data Unbound ([new_SongInfo 1 98 43, new_SongInfo 2 141 44] ! j)
               (opened v2_file))"
    by (simp add: less_Suc_eq v2_song_1)
  show ?thesis
    using C5_digi_sdat_success [OF v2_headers, of 0 Unbound] others
    by (auto simp: new_SongInfo_def opened_def v2_bytes)
qed

section \<open>Skipped tracks\<close>

text \<open>
  What holds of a skip on the paths that do not use the name \<open>f\<close>. Let the header
  reader return the descriptors \<open>songs\<close>, and let the track of the \<open>k\<close>-th one
  either not start with \<open>DIGI\<close>, or start with \<open>DIGI\<close>, hold its rate field and
  have at offset + 32 a tag that is neither \<open>SBNG\<close> nor \<open>SDAT\<close>. Then the
  iteration for this song raises nothing, leaves the song as the header reader made it
  (rate and payload are \<open>None\<close>, not an empty buffer) and logs one warning: the
  unsupported format with the tag read (the spec's UnsupportedFormat) in the first case,
  the failed payload check (MissingPayloadChunk) in the second. When no other song of
  the batch raises, the extraction returns a list as long as \<open>songs\<close>, whose \<open>k\<close>-th
  entry is this song, whose log holds the warning, and whose every entry is what the
  iteration for that descriptor alone leaves.
\<close>

lemma skipped_track:
  fixes f :: BinaryIO and songs :: "SongInfo list" and k :: nat
  defines "d \<equiv> content f"
  defines "s \<equiv> songs ! k"
  defines "a \<equiv> nat (offset s)"
  defines "w \<equiv> (if bytes_at d a 4 \<noteq> ''DIGI'' then Unsupported_Format (bytes_at d a 4) (id' s)
                  else Payload_Check_Failed (id' s) (offset s))"
  assumes hdr: "read_music_headers f = Inr (songs, f1)" and k: "k < length songs"
    and skip: "bytes_at d a 4 \<noteq> ''DIGI''
               \<or> (a + 26 \<le> length d \<and> bytes_at d (a + 32) 4 \<noteq> ''SBNG''
                    \<and> bytes_at d (a + 32) 4 \<noteq> ''SDAT'')"
  shows "(\<exists>f2. get_song_data g s f = Inr (s, [w], f2))
       \<and> rate s = None \<and> payload s = None
       \<and> ((\<forall>j<length songs. j \<noteq> k \<longrightarrow> \<not> isl (get_song_data g (songs ! j) f)) \<longrightarrow>
            (\<exists>res log f'. get_music_data g f = Inr (res, log, f')
               \<and> length res = length songs
               \<and> res ! k = s \<and> rate (res ! k) = None \<and> payload (res ! k) = None
               \<and> w \<in> set log
               \<and> (\<forall>j<length songs. res ! j = song_result g f (songs ! j))))"
proof -
  have init: "0 \<le> offset s" "rate s = None" "payload s = None"
    using read_music_headers_Inr [OF hdr] k by (simp_all add: s_def)
  have one: "\<exists>f2. get_song_data g s f = Inr (s, [w], f2)"
  proof (cases "bytes_at d a 4 = ''DIGI''")
    case False
    then show ?thesis
      using get_song_data_unsupported [of s f g] init(1)
      by (simp add: d_def a_def w_def)
  next
    case True
    with skip show ?thesis
      using get_song_data_missing [of s f g] init(1)
      by (simp add: d_def a_def w_def)
  qed
  then obtain f2 where f2: "get_song_data g (songs ! k) f = Inr (s, [w], f2)"
    by (auto simp: s_def)
  have "\<exists>res log f'. get_music_data g f = Inr (res, log, f')
               \<and> length res = length songs
               \<and> res ! k = s \<and> rate (res ! k) = None \<and> payload (res ! k) = None
               \<and> w \<in> set log
               \<and> (\<forall>j<length songs. res ! j = song_result g f (songs ! j))"
    if "\<forall>j<length songs. j \<noteq> k \<longrightarrow> \<not> isl (get_song_data g (songs ! j) f)"
    using get_music_data_entry [OF hdr k that f2] init
    by auto
  with one init show ?thesis
    by blast
qed

lemma skipped_track_example:
  "(\<exists>res log f'. get_music_data Unbound (opened skip_file) = Inr (res, log, f')
       \<and> length res = 3 \<and> res ! 0 = new_SongInfo 1 95 8
       \<and> Unsupported_Format ''TALK'' 1 \<in> set log)
   \<and> (\<exists>res log f'. get_music_data Unbound (opened skip_file) = Inr (res, log, f')
       \<and> length res = 3 \<and> res ! 1 = new_SongInfo 2 103 36
       \<and> Payload_Check_Failed 2 103 \<in> set log)"
proof -
  let ?songs = "[new_SongInfo 1 95 8, new_SongInfo 2 103 36, new_SongInfo 3 139 43]"
  have ok: "\<forall>j<length ?songs. \<not> isl (get_song_data Unbound (?songs ! j) (opened skip_file))"
    by (simp add: less_Suc_eq skip_song_0 skip_song_1 skip_song_2)
  then have others: "\<forall>j<length ?songs. j \<noteq> k \<longrightarrow>
      \<not> isl (get_song_data Unbound (?songs ! j) (opened skip_file))" for k
    by blast
  have "\<exists>res log f'. get_music_data Unbound (opened skip_file) = Inr (res, log, f')
       \<and> length res = 3 \<and> res ! 0 = new_SongInfo 1 95 8
       \<and> Unsupported_Format ''TALK'' 1 \<in> set log"
    using skipped_track [OF skip_headers, of 0 Unbound] others [of 0]
    by (auto simp: new_SongInfo_def opened_def skip_bytes)
  moreover have "\<exists>res log f'. get_music_data Unbound (opened skip_file) = Inr (res, log, f')
       \<and> length res = 3 \<and> res ! 1 = new_SongInfo 2 103 36
       \<and> Payload_Check_Failed 2 103 \<in> set log"
    using skipped_track [OF skip_headers, of 1 Unbound] others [of 1]
    by (auto simp: new_SongInfo_def opened_def skip_bytes)
  ultimately show ?thesis
    by blast
qed

text \<open>
  The payload check reached through the inline code block, when \<open>f\<close> is the file: the
  tag read after the block is not \<open>SDAT\<close>. The song is skipped in the same way, with
  the inline-code offset set to 40.
\<close>

lemma skipped_track_after_sbng:
  fixes f :: BinaryIO and songs :: "SongInfo list" and k :: nat
  defines "d \<equiv> content f"
  defines "s \<equiv> songs ! k"
  defines "a \<equiv> nat (offset s)"
  defines "q \<equiv> a + 32 + nat (from_be (bytes_at d (a + 36) 4))"
  defines "w \<equiv> Payload_Check_Failed (id' s) (offset s)"
  assumes hdr: "read_music_headers f = Inr (songs, f1)" and k: "k < length songs"
    and digi: "bytes_at d a 4 = ''DIGI''" and sbng: "bytes_at d (a + 32) 4 = ''SBNG''"
    and field: "a + 40 \<le> length d" and tag: "bytes_at d q 4 \<noteq> ''SDAT''"
  shows "get_song_data Same_File s f =
           Inr (s\<lparr>sbng_code_offset := 40\<rparr>, [w], f\<lparr>position := q + min 4 (length d - q)\<rparr>)
       \<and> ((\<forall>j<length songs. j \<noteq> k \<longrightarrow> \<not> isl (get_song_data Same_File (songs ! j) f)) \<longrightarrow>
            (\<exists>res log f'. get_music_data Same_File f = Inr (res, log, f')
               \<and> length res = length songs
               \<and> res ! k = s\<lparr>sbng_code_offset := 40\<rparr>
               \<and> rate (res ! k) = None \<and> payload (res ! k) = None
               \<and> w \<in> set log
               \<and> (\<forall>j<length songs. res ! j = song_result Same_File f (songs ! j))))"
proof -
  have init: "0 \<le> offset s" "rate s = None" "payload s = None"
    using read_music_headers_Inr [OF hdr] k by (simp_all add: s_def)
  have one: "get_song_data Same_File s f =
           Inr (s\<lparr>sbng_code_offset := 40\<rparr>, [w], f\<lparr>position := q + min 4 (length d - q)\<rparr>)"
    using get_song_data_sbng_missing [of s f q] init(1) digi sbng field tag
    by (simp add: d_def a_def q_def w_def)
  have "\<exists>res log f'. get_music_data Same_File f = Inr (res, log, f')
               \<and> length res = length songs
               \<and> res ! k = s\<lparr>sbng_code_offset := 40\<rparr>
               \<and> rate (res ! k) = None \<and> payload (res ! k) = None
               \<and> w \<in> set log
               \<and> (\<forall>j<length songs. res ! j = song_result Same_File f (songs ! j))"
    if "\<forall>j<length songs. j \<noteq> k \<longrightarrow> \<not> isl (get_song_data Same_File (songs ! j) f)"
    using get_music_data_entry [OF hdr k that one [unfolded s_def]] init
    by (auto simp: s_def)
  with one show ?thesis
    by blast
qed

text \<open>
  Claim C6. The claim is that a track failing the outer-tag check or the payload-tag
  check is skipped with its reason, with rate and payload absent, and that the other
  descriptors are extracted all the same, the caller receiving a full-length list. In
  \<open>sbng_skip_file\<close> the first track fails the payload-tag check behind an \<open>SBNG\<close>
  block and the second is well-formed. With no global \<open>f\<close> bound, line 105 raises
  \<open>NameError\<close> before the check of line 108 is reached: the extraction returns no list
  at all, the second track included. With \<open>f\<close> bound to the file, the code does what
  the claim says: the first entry is skipped (rate and payload \<open>None\<close>, the failed
  payload check logged, inline-code offset 40) and the second is extracted.
\<close>

theorem C6_skip_after_sbng_name_error:
  "get_music_data Unbound (opened sbng_skip_file) = Inl NameError
   \<and> get_music_data Same_File (opened sbng_skip_file) =
       Inr ([\<lparr>id' = 1, offset = 70, size' = 48, rate = None, payload = None,
               sbng_code_offset = 40\<rparr>,
             \<lparr>id' = 2, offset = 118, size' = 43, rate = Some 11025, payload = Some ''abc'',
               sbng_code_offset = - 1\<rparr>],
            [Payload_Check_Failed 1 70],
            \<lparr>content = sbng_skip_file, position = 161, closed = False\<rparr>)"
  by (simp add: get_music_data_songs [OF sbng_skip_headers] sbng_skip_song_0_unbound
      sbng_skip_song_0_same sbng_skip_song_1)

section \<open>Container-level failures\<close>

text \<open>
  Claim C7. On an open file whose first four bytes are not \<open>SONG\<close>, the header reader
  raises the \<open>RuntimeError\<close> of line 45 (the spec's NotAContainer) and so does the whole
  extraction: no descriptor list is returned. On a file that starts with \<open>SONG\<close> and
  whose bytes at offset 8 are not \<open>SGHD\<close>, both raise the \<open>AssertionError\<close> of line 48
  (the spec's MalformedHeader). The checks run in this order, so a file that fails both
  raises the first; whatever the first four bytes are, a file whose bytes at offset 8
  are not \<open>SGHD\<close> makes both methods raise and return nothing.
\<close>

theorem C7_container_failures:
  assumes "\<not> closed f"
  shows "(bytes_at (content f) 0 4 \<noteq> ''SONG'' \<longrightarrow>
            read_music_headers f = Inl RuntimeError \<and> get_music_data g f = Inl RuntimeError)
       \<and> (bytes_at (content f) 0 4 = ''SONG'' \<and> bytes_at (content f) 8 4 \<noteq> ''SGHD'' \<longrightarrow>
            read_music_headers f = Inl AssertionError \<and> get_music_data g f = Inl AssertionError)
       \<and> (bytes_at (content f) 8 4 \<noteq> ''SGHD'' \<longrightarrow>
            isl (read_music_headers f) \<and> isl (get_music_data g f))"
proof -
  have a: "read_music_headers f = Inl RuntimeError \<and> get_music_data g f = Inl RuntimeError"
    if "bytes_at (content f) 0 4 \<noteq> ''SONG''"
    using assms that
    by (simp add: read_music_headers_not_SONG get_music_data_header_error)
  have b: "read_music_headers f = Inl AssertionError \<and> get_music_data g f = Inl AssertionError"
    if "bytes_at (content f) 0 4 = ''SONG''" and "bytes_at (content f) 8 4 \<noteq> ''SGHD''"
    using assms that
    by (simp add: read_music_headers_not_SGHD get_music_data_header_error)
  have c: "isl (read_music_headers f) \<and> isl (get_music_data g f)"
    if "bytes_at (content f) 8 4 \<noteq> ''SGHD''"
  proof (cases "bytes_at (content f) 0 4 = ''SONG''")
    case True
    with b that show ?thesis by simp
  next
    case False
    with a show ?thesis by simp
  qed
  from a b c show ?thesis by blast
qed

theorem C7_container_failures_witness:
  "read_music_headers (opened riff_file) = Inl RuntimeError
   \<and> get_music_data Unbound (opened riff_file) = Inl RuntimeError
   \<and> read_music_headers (opened bad_sghd_file) = Inl AssertionError
   \<and> get_music_data Unbound (opened bad_sghd_file) = Inl AssertionError
   \<and> isl (get_music_data Same_File (opened bad_sghd_file))"
  using C7_container_failures [of "opened riff_file" Unbound]
    C7_container_failures [of "opened bad_sghd_file" Unbound]
    C7_container_failures [of "opened bad_sghd_file" Same_File]
  by (simp add: opened_def riff_file_def bad_sghd_file_def zeros_def bytes_at_def)

section \<open>Running twice\<close>

text \<open>
  Claim C8. What the header reader and the extraction return depends on the bytes of
  the file only, not on where the cursor stands: from any cursor position they return
  the same. So a second run of the header reader on the file as the first run left it
  returns the same descriptors, and a second full extraction on the file as the first
  left it returns the same songs, payloads included, and the same warnings.
\<close>

theorem C8_deterministic:
  "read_music_headers (f\<lparr>position := p\<rparr>) = read_music_headers f
   \<and> get_music_data g (f\<lparr>position := p\<rparr>) = get_music_data g f
   \<and> (read_music_headers f = Inr (songs, f1) \<longrightarrow> read_music_headers f1 = Inr (songs, f1))
   \<and> (get_music_data g f = Inr (res, log, f2) \<longrightarrow> get_music_data g f2 = Inr (res, log, f2))"
proof -
  have a: "read_music_headers f1 = Inr (songs, f1)" if h: "read_music_headers f = Inr (songs, f1)"
  proof -
    from read_music_headers_Inr [OF h] have "f1 = f\<lparr>position := position f1\<rparr>"
      by (simp add: same_file_eq)
    then have "read_music_headers f1 = read_music_headers (f\<lparr>position := position f1\<rparr>)"
      by simp
    with h show ?thesis
      by (simp only: read_music_headers_position)
  qed
  have b: "get_music_data g f2 = Inr (res, log, f2)" if h: "get_music_data g f = Inr (res, log, f2)"
  proof -
    from get_music_data_Inr [OF h] have "f2 = f\<lparr>position := position f2\<rparr>"
      by (auto simp: same_file_eq)
    then have "get_music_data g f2 = get_music_data g (f\<lparr>position := position f2\<rparr>)"
      by simp
    with h show ?thesis
      by (simp only: get_music_data_position)
  qed
  from a b show ?thesis
    by (simp add: read_music_headers_position get_music_data_position)
qed

theorem C8_deterministic_witness:
  "read_music_headers \<lparr>content = v2_file, position = 98, closed = False\<rparr> =
     Inr ([new_SongInfo 1 98 43, new_SongInfo 2 141 44],
          \<lparr>content = v2_file, position = 98, closed = False\<rparr>)
   \<and> get_music_data Unbound \<lparr>content = v2_file, position = 185, closed = False\<rparr> =
     Inr ([\<lparr>id' = 1, offset = 98, size' = 43, rate = Some 11025, payload = Some ''abc'',
             sbng_code_offset = - 1\<rparr>,
           \<lparr>id' = 2, offset = 141, size' = 44, rate = Some 22050, payload = Some ''wxyz'',
             sbng_code_offset = - 1\<rparr>], [],
          \<lparr>content = v2_file, position = 185, closed = False\<rparr>)"
  using C8_deterministic [where f = "opened v2_file" and p = 0 and g = Unbound
      and songs = "[new_SongInfo 1 98 43, new_SongInfo 2 141 44]"
      and ?f1.0 = "\<lparr>content = v2_file, position = 98, closed = False\<rparr>"
      and res = "[\<lparr>id' = 1, offset = 98, size' = 43, rate = Some 11025, payload = Some ''abc'',
             sbng_code_offset = - 1\<rparr>,
           \<lparr>id' = 2, offset = 141, size' = 44, rate = Some 22050, payload = Some ''wxyz'',
             sbng_code_offset = - 1\<rparr>]" and log = "[]"
      and ?f2.0 = "\<lparr>content = v2_file, position = 185, closed = False\<rparr>"]
  by (simp add: v2_headers v2_music)

section \<open>The descriptor fields are not touched\<close>

text \<open>
  Claim C9. When the extraction returns, its list is as long as the header reader's
  and each entry has the id, offset and size of the descriptor at the same place,
  whether the track was extracted or skipped: an entry differs from its descriptor at
  most in the rate, the payload and the inline-code offset.
\<close>

theorem C9_descriptor_fields_unchanged:
  assumes "read_music_headers f = Inr (songs, f1)"
    and "get_music_data g f = Inr (res, log, f2)"
  shows "length res = length songs
       \<and> (\<forall>k<length songs.
             id' (res ! k) = id' (songs ! k) \<and> offset (res ! k) = offset (songs ! k)
             \<and> size' (res ! k) = size' (songs ! k)
             \<and> res ! k = (songs ! k)\<lparr>rate := rate (res ! k), payload := payload (res ! k),
                    sbng_code_offset := sbng_code_offset (res ! k)\<rparr>)"
proof -
  from get_music_data_Inr [OF assms(2)] assms(1)
  have ok: "\<forall>s\<in>set songs. \<not> isl (get_song_data g s f)"
    and res: "res = map (song_result g f) songs"
    by auto
  have "id' (res ! k) = id' (songs ! k) \<and> offset (res ! k) = offset (songs ! k)
             \<and> size' (res ! k) = size' (songs ! k)
             \<and> res ! k = (songs ! k)\<lparr>rate := rate (res ! k), payload := payload (res ! k),
                    sbng_code_offset := sbng_code_offset (res ! k)\<rparr>"
    if k: "k < length songs" for k
  proof -
    from ok k have "\<not> isl (get_song_data g (songs ! k) f)"
      by simp
    from song_result_frame [OF this] res k show ?thesis
      by simp
  qed
  with res show ?thesis
    by simp
qed

theorem C9_descriptor_fields_unchanged_witness:
  "id' ([new_SongInfo 1 95 8, new_SongInfo 2 103 36,
         \<lparr>id' = 3, offset = 139, size' = 43, rate = Some 11025, payload = Some ''abc'',
           sbng_code_offset = - 1\<rparr>] ! 2) = 3
   \<and> offset ([new_SongInfo 1 95 8, new_SongInfo 2 103 36,
         \<lparr>id' = 3, offset = 139, size' = 43, rate = Some 11025, payload = Some ''abc'',
           sbng_code_offset = - 1\<rparr>] ! 2) = 139
   \<and> size' ([new_SongInfo 1 95 8, new_SongInfo 2 103 36,
         \<lparr>id' = 3, offset = 139, size' = 43, rate = Some 11025, payload = Some ''abc'',
           sbng_code_offset = - 1\<rparr>] ! 0) = 8"
  using C9_descriptor_fields_unchanged [OF skip_headers skip_music [of Unbound]]
  by (simp add: new_SongInfo_def)

section \<open>The inline-code offset\<close>

text \<open>
  Claim C10. In every list the extraction returns, the inline-code offset of an entry
  is -1 or 40, and it is 40 exactly when the track starts with \<open>DIGI\<close> and the tag at
  the descriptor's offset + 32 is \<open>SBNG\<close>; otherwise it is the initial -1.
\<close>

theorem C10_inline_code_offset:
  assumes "read_music_headers f = Inr (songs, f1)"
    and "get_music_data g f = Inr (res, log, f2)"
  shows "\<forall>k<length res.
           (sbng_code_offset (res ! k) = - 1 \<or> sbng_code_offset (res ! k) = 40)
         \<and> (sbng_code_offset (res ! k) = 40 \<longleftrightarrow>
              bytes_at (content f) (nat (offset (songs ! k))) 4 = ''DIGI''
              \<and> bytes_at (content f) (nat (offset (songs ! k)) + 32) 4 = ''SBNG'')"
proof -
  from get_music_data_Inr [OF assms(2)] assms(1)
  have ok: "\<forall>s\<in>set songs. \<not> isl (get_song_data g s f)"
    and res: "res = map (song_result g f) songs"
    by auto
  have init: "\<forall>s\<in>set songs. sbng_code_offset s = - 1"
    using read_music_headers_Inr [OF assms(1)] by simp
  have "(sbng_code_offset (res ! k) = - 1 \<or> sbng_code_offset (res ! k) = 40)
         \<and> (sbng_code_offset (res ! k) = 40 \<longleftrightarrow>
              bytes_at (content f) (nat (offset (songs ! k))) 4 = ''DIGI''
              \<and> bytes_at (content f) (nat (offset (songs ! k)) + 32) 4 = ''SBNG'')"
    if k: "k < length songs" for k
  proof -
    from ok k have "\<not> isl (get_song_data g (songs ! k) f)"
      by simp
    from song_result_frame [OF this] res k init show ?thesis
      by simp
  qed
  then have "\<forall>k<length songs.
           (sbng_code_offset (res ! k) = - 1 \<or> sbng_code_offset (res ! k) = 40)
         \<and> (sbng_code_offset (res ! k) = 40 \<longleftrightarrow>
              bytes_at (content f) (nat (offset (songs ! k))) 4 = ''DIGI''
              \<and> bytes_at (content f) (nat (offset (songs ! k)) + 32) 4 = ''SBNG'')"
    by blast
  moreover have "length res = length songs"
    using res by simp
  ultimately show ?thesis
    by (simp only:)
qed

theorem C10_inline_code_offset_witness:
  "sbng_code_offset ([\<lparr>id' = 7, offset = 45, size' = 55, rate = Some 11025,
        payload = Some ''abc'', sbng_code_offset = 40\<rparr>] ! 0) = 40
   \<and> bytes_at (content (opened sbng_file)) (nat (offset ([new_SongInfo 7 45 55] ! 0)) + 32) 4
       = ''SBNG''"
  using C10_inline_code_offset [OF sbng_headers sbng_music_same]
  by (simp add: new_SongInfo_def)

end
